theory Spec2Isabelle
  imports Main "HOL-Library.Word" "HOL-Library.Sublist"
begin

unbundle bit_operations_syntax

section \<open>The NeoFS load client of \<open>internal/native/client.go\<close>\<close>

text \<open>
  The Go file drives PUT and GET transfers against a NeoFS node through the NeoFS SDK.
  Its own code is embedded function by function, under the names of the source. The SDK,
  the k6 statistics and the standard library are collaborators outside the file:
  \<^item> their pure functions (identifier decoding, hashing, signing) are fields of a
    record of functions, \<open>sdk\<close>, over which every theorem quantifies;
  \<^item> the answers of the node during one operation (open, header, chunk, close) are
    fields of a record \<open>node\<close>, again arbitrary;
  \<^item> every call the client makes to the node or to the statistics is appended to a
    trace of \<open>event\<close>s, which each operation returns next to its result.
  Go's \<open>int\<close> is the 64-bit signed integer of the platforms k6 runs on. Sizes and
  counts that cannot leave that range are \<open>int\<close>; the one conversion from
  \<open>uint64\<close> to \<open>int\<close> is written with \<open>sint\<close> on a 64-bit word.
  A panic is a value of its own, so that every \<open>panic\<close> of the source and every
  nil dereference is a branch of the model.
\<close>

subsection \<open>Data\<close>

type_synonym byte = "8 word"
type_synonym bytes = "byte list"
type_synonym uint64 = "64 word"

text \<open>Go's \<open>error\<close> interface: \<open>nil\<close> is \<open>None\<close>, an error is known by its message.\<close>

type_synonym error = "string option"

text \<open>\<open>cid.ID\<close>, \<open>oid.ID\<close>, \<open>user.ID\<close> and \<open>ecdsa.PrivateKey\<close> are opaque to the client.\<close>

type_synonym cid_ID = bytes
type_synonym oid_ID = bytes
type_synonym user_ID = bytes
type_synonym PrivateKey = nat

datatype panic =
    PanicError string
  | PanicBufferSize
  | PayloadTooLarge int uint64
  | NilDereference
  | MakeSliceOutOfRange

datatype 'a outcome = Panic panic | Return 'a

record Address =
  a_containerID :: "cid_ID option"
  a_objectID :: "oid_ID option"

datatype Verb = VerbObjectPut | VerbObjectGet

text \<open>
  \<open>session.Object\<close>: the verb and the address the token is bound to, its issuer and
  signature, which \<open>Sign\<close> writes, and the rest of the template (identifier, lifetime,
  session key), which the client never touches. The token is a value: \<open>tok := c.tok\<close>
  copies it.
\<close>

record session_Object =
  t_verb :: "Verb option"
  t_address :: "Address option"
  t_issuer :: "user_ID option"
  t_signature :: "bytes option"
  t_body :: bytes

datatype Checksum = SHA256 bytes | TillichZemor bytes

datatype Type = TypeRegular

text \<open>
  \<open>object.Object\<close>, with the header fields the client sets. An unset field is
  \<open>None\<close> (the zero value of \<open>var o object.Object\<close> and of \<open>object.New()\<close>). The
  type is the SDK's; the fields are those of the specification's Object. In the SDK an
  \<open>object.Object\<close> holds its identifier and its signature itself and its header (all
  the other fields, the attributes among them) behind a pointer. An assignment such as
  \<open>obj := p.hdr\<close> therefore copies identifier and signature and shares the header: a
  header setter called on the copy writes the original too. The record is the object as
  one handle sees it; where two handles share a header the embedding writes both.
\<close>

record Object =
  o_version :: "string option"
  o_type :: "Type option"
  o_containerID :: "cid_ID option"
  o_ownerID :: "user_ID option"
  o_payloadSize :: "uint64 option"
  o_creationEpoch :: "uint64 option"
  o_payloadChecksum :: "Checksum option"
  o_payloadHomomorphicHash :: "Checksum option"
  o_attributes :: "(string \<times> string) list"
  o_ID :: "oid_ID option"
  o_signature :: "bytes option"

definition object_New :: Object where
  "object_New = \<lparr>o_version = None, o_type = None, o_containerID = None, o_ownerID = None,
     o_payloadSize = None, o_creationEpoch = None, o_payloadChecksum = None,
     o_payloadHomomorphicHash = None, o_attributes = [], o_ID = None, o_signature = None\<rparr>"

text \<open>The fields of \<open>Client\<close> and \<open>PreparedObject\<close> that are data; \<open>vu\<close> and \<open>cli\<close> are
  the handles of the collaborators.\<close>

record Client =
  c_key :: PrivateKey
  c_tok :: session_Object
  c_bufsize :: int

record PutResponse =
  put_Success :: bool
  put_ObjectID :: string
  put_Error :: string

record GetResponse =
  get_Success :: bool
  get_Error :: string

record PreparedObject =
  p_key :: PrivateKey
  p_bufsize :: int
  p_hdr :: Object
  p_payload :: bytes

text \<open>\<open>client.ResObjectPut\<close>: the identifier the node stored, when it sent one.\<close>

record ResObjectPut =
  r_storedID :: "oid_ID option"

record PrmObjectGet =
  g_objectID :: oid_ID
  g_containerID :: cid_ID
  g_session :: session_Object

text \<open>The response of \<open>NetworkInfo\<close>: the epoch and the configuration's parameters in
  the order \<open>IterateParameters\<close> visits them.\<close>

record NetworkInfo =
  n_CurrentEpoch :: uint64
  n_parameters :: "(string \<times> bytes) list"

subsection \<open>Collaborators\<close>

record sdk =
  cid_DecodeString :: "string \<Rightarrow> string + cid_ID"
  oid_DecodeString :: "string \<Rightarrow> string + oid_ID"
  oid_String :: "oid_ID \<Rightarrow> string"
  signature_Calculate :: "PrivateKey \<Rightarrow> session_Object \<Rightarrow> string + bytes"
  user_IDFromKey :: "PrivateKey \<Rightarrow> user_ID"
  version_Current :: string
  sha256_Sum256 :: "bytes \<Rightarrow> bytes"
  tz_Sum :: "bytes \<Rightarrow> bytes"
  object_CalculateID :: "Object \<Rightarrow> string + oid_ID"
  object_CalculateIDSignature :: "PrivateKey \<Rightarrow> Object \<Rightarrow> string + bytes"
  stackitem_TryBool :: "bytes \<Rightarrow> bool \<times> error"

text \<open>
  What the node answers during one operation. A chunk write and a chunk read are
  answered by their position in the stream (and the chunk written); \<open>Read\<close> answers the
  number of bytes and an error, as \<open>io.Reader\<close> does.
\<close>

record node =
  nd_NetworkInfo :: "string + NetworkInfo"
  nd_ObjectPutInit :: error
  nd_WriteHeader :: "Object \<Rightarrow> bool"
  nd_WritePayloadChunk :: "nat \<Rightarrow> bytes \<Rightarrow> bool"
  nd_PutClose :: "ResObjectPut option \<times> error"
  nd_ObjectGetInit :: "PrmObjectGet \<Rightarrow> error"
  nd_ReadHeader :: bool
  nd_Read :: "nat \<Rightarrow> int \<times> error"
  nd_GetClose :: error

text \<open>
  The metrics of the package and the calls a trace records. A counter is reported with
  the value 1; a duration is reported with the wall-clock time since the start of the
  operation, which the trace leaves out. \<open>ReportDataSent\<close> and \<open>ReportDataReceived\<close>
  carry the byte count before its conversion to \<open>float64\<close>.
\<close>

datatype metric =
  objPutTotal | objPutFails | objPutDuration | objGetTotal | objGetFails | objGetDuration

datatype event =
    Report metric
  | ReportDataSent int
  | ReportDataReceived int
  | CallNetworkInfo
  | ObjectPutInit
  | WithinSession session_Object
  | WriteHeader Object bool
  | WritePayloadChunk bytes bool
  | PutClose
  | ObjectGetInit PrmObjectGet
  | ReadHeader bool
  | Read int error
  | GetClose

subsection \<open>\<open>SetBufferSize\<close>\<close>

definition defaultBufferSize :: int where
  "defaultBufferSize = 64 * 1024"

definition SetBufferSize :: "Client \<Rightarrow> int \<Rightarrow> unit outcome \<times> Client" where
  "SetBufferSize c sz =
     (if sz < 0 then (Panic PanicBufferSize, c)
      else if sz = 0 then (Return (), c\<lparr>c_bufsize := defaultBufferSize\<rparr>)
      else (Return (), c\<lparr>c_bufsize := sz\<rparr>))"

subsection \<open>\<open>parseNetworkInfo\<close>\<close>

text \<open>Go's built-in \<open>copy(dst, src)\<close>: the number of elements copied and \<open>dst\<close> afterwards.\<close>

definition copy :: "'a list \<Rightarrow> 'a list \<Rightarrow> nat \<times> 'a list" where
  "copy dst src = (let n = min (length dst) (length src) in (n, take n src @ drop n dst))"

definition LittleEndian_Uint64 :: "bytes \<Rightarrow> uint64" where
  "LittleEndian_Uint64 b =
     ucast (b ! 0) OR push_bit 8 (ucast (b ! 1)) OR push_bit 16 (ucast (b ! 2)) OR
     push_bit 24 (ucast (b ! 3)) OR push_bit 32 (ucast (b ! 4)) OR push_bit 40 (ucast (b ! 5)) OR
     push_bit 48 (ucast (b ! 6)) OR push_bit 56 (ucast (b ! 7))"

text \<open>
  \<open>IterateParameters\<close> calls the function on each parameter in turn and stops when it
  answers \<open>true\<close>. The closure of the source writes three variables of
  \<open>parseNetworkInfo\<close>: \<open>maxObjSize\<close>, \<open>hhDisabled\<close> and \<open>err\<close>; they are the state here.
\<close>

fun IterateParameters :: "('p \<Rightarrow> 's \<Rightarrow> bool \<times> 's) \<Rightarrow> 'p list \<Rightarrow> 's \<Rightarrow> 's" where
  "IterateParameters f [] s = s"
| "IterateParameters f (p # ps) s =
     (case f p s of (stop, s') \<Rightarrow> if stop then s' else IterateParameters f ps s')"

definition parameter_func ::
  "sdk \<Rightarrow> string \<times> bytes \<Rightarrow> uint64 \<times> bool \<times> error \<Rightarrow> bool \<times> uint64 \<times> bool \<times> error" where
  "parameter_func S parameter st =
     (case st of (maxObjSize, hhDisabled, err) \<Rightarrow>
        if fst parameter = ''MaxObjectSize'' then
          (let buf = snd (copy (replicate 8 0) (snd parameter))
           in (False, LittleEndian_Uint64 buf, hhDisabled, None))
        else if fst parameter = ''HomomorphicHashingDisabled'' then
          (case stackitem_TryBool S (snd parameter) of
             (b, e) \<Rightarrow> if e \<noteq> None then (True, maxObjSize, b, e) else (False, maxObjSize, b, e))
        else (False, maxObjSize, hhDisabled, err))"

text \<open>The result is \<open>(maxObjSize, epoch, hhDisabled, err)\<close>.\<close>

definition parseNetworkInfo :: "sdk \<Rightarrow> node \<Rightarrow> uint64 \<times> uint64 \<times> bool \<times> error" where
  "parseNetworkInfo S N =
     (case nd_NetworkInfo N of
        Inl e \<Rightarrow> (0, 0, False, Some e)
      | Inr ni \<Rightarrow>
          (let epoch = n_CurrentEpoch ni;
               err = Some ''network configuration misses max object size value''
           in case IterateParameters (parameter_func S) (n_parameters ni) (0, False, err) of
                (maxObjSize, hhDisabled, err') \<Rightarrow> (maxObjSize, epoch, hhDisabled, err')))"

subsection \<open>\<open>Onsite\<close>\<close>

definition Onsite ::
  "sdk \<Rightarrow> node \<Rightarrow> Client \<Rightarrow> string \<Rightarrow> bytes \<Rightarrow> PreparedObject outcome \<times> event list" where
  "Onsite S N c inputContainerID payload =
     (case parseNetworkInfo S N of
        (maxObjectSize, epoch, hhDisabled, err) \<Rightarrow>
          (case err of
             Some e \<Rightarrow> (Panic (PanicError e), [CallNetworkInfo])
           | None \<Rightarrow>
               (let data = payload; ln = int (length data) in
                if ln > sint maxObjectSize
                then (Panic (PayloadTooLarge ln maxObjectSize), [CallNetworkInfo])
                else
                  (case cid_DecodeString S inputContainerID of
                     Inl e \<Rightarrow> (Panic (PanicError e), [CallNetworkInfo])
                   | Inr containerID \<Rightarrow>
                       (let owner = user_IDFromKey S (c_key c);
                            obj = object_New
                              \<lparr>o_version := Some (version_Current S),
                               o_type := Some TypeRegular,
                               o_containerID := Some containerID,
                               o_ownerID := Some owner,
                               o_payloadSize := Some (word_of_int ln),
                               o_creationEpoch := Some epoch\<rparr>;
                            obj = obj\<lparr>o_payloadChecksum := Some (SHA256 (sha256_Sum256 S data))\<rparr>;
                            obj = (if \<not> hhDisabled
                                   then obj\<lparr>o_payloadHomomorphicHash :=
                                              Some (TillichZemor (tz_Sum S data))\<rparr>
                                   else obj)
                        in (Return \<lparr>p_key = c_key c, p_bufsize = c_bufsize c,
                                     p_hdr = obj, p_payload = data\<rparr>,
                            [CallNetworkInfo]))))))"

subsection \<open>\<open>put\<close>\<close>

text \<open>\<open>bytes.Reader.Read\<close> on the reader over \<open>s\<close> at position \<open>i\<close>, into \<open>b\<close>: the count,
  the new position and \<open>b\<close> afterwards.\<close>

definition rdr_Read :: "bytes \<Rightarrow> nat \<Rightarrow> bytes \<Rightarrow> nat \<times> nat \<times> bytes" where
  "rdr_Read s i b =
     (if i \<ge> length s then (0, i, b)
      else case copy b (drop i s) of (n, b') \<Rightarrow> (n, i + n, b'))"

text \<open>
  The loop of \<open>put\<close> from its test \<open>n > 0\<close> on: \<open>n\<close> is the count of the last read, \<open>i\<close>
  the reader's position, \<open>k\<close> the number of chunks written so far. It returns the chunk
  writes it made, each with the stream's answer.
\<close>

function put_loop :: "node \<Rightarrow> bytes \<Rightarrow> nat \<Rightarrow> bytes \<Rightarrow> nat \<Rightarrow> nat \<Rightarrow> event list" where
  "put_loop N s i buf n k =
     (if n > 0 then
        (let chunk = take n buf in
         if \<not> nd_WritePayloadChunk N k chunk then [WritePayloadChunk chunk False]
         else WritePayloadChunk chunk True #
              put_loop N s (fst (snd (rdr_Read s i buf))) (snd (snd (rdr_Read s i buf)))
                (fst (rdr_Read s i buf)) (Suc k))
      else [])"
  by pat_completeness auto
termination
  by (relation "measure (\<lambda>(N, s, i, buf, n, k). (if n > 0 then 1 else 0) + (length s - i))")
     (auto simp: rdr_Read_def copy_def Let_def min_def neq_Nil_conv split: if_splits)

declare put_loop.simps [simp del]

text \<open>The result is the pair \<open>(resp, err)\<close> of the source, \<open>None\<close> for \<open>nil\<close>.\<close>

definition put ::
  "node \<Rightarrow> int \<Rightarrow> session_Object option \<Rightarrow> Object \<Rightarrow> bytes \<Rightarrow>
   (ResObjectPut option \<times> error) outcome \<times> event list" where
  "put N bufSize tok hdr payload =
     (if bufSize < 0 then (Panic MakeSliceOutOfRange, [])
      else
        (let buf = replicate (nat bufSize) (0 :: byte);
             sz = int (length payload);
             t0 = [Report objPutTotal, ObjectPutInit]
         in case nd_ObjectPutInit N of
              Some e \<Rightarrow> (Return (None, Some e), t0 @ [Report objPutFails])
            | None \<Rightarrow>
                (let t1 = t0 @ (case tok of None \<Rightarrow> [] | Some t \<Rightarrow> [WithinSession t]) in
                 if \<not> nd_WriteHeader N hdr
                 then (Return (None, snd (nd_PutClose N)),
                       t1 @ [WriteHeader hdr False, Report objPutFails, PutClose])
                 else
                   (case rdr_Read payload 0 buf of
                      (n, i, buf') \<Rightarrow>
                        (let t2 = t1 @ [WriteHeader hdr True] @ put_loop N payload i buf' n 0 @
                                  [PutClose]
                         in case nd_PutClose N of
                              (resp, Some e) \<Rightarrow> (Return (None, Some e), t2 @ [Report objPutFails])
                            | (resp, None) \<Rightarrow>
                                (Return (resp, None),
                                 t2 @ [ReportDataSent sz, Report objPutDuration]))))))"

subsection \<open>\<open>Client.Put\<close>\<close>

text \<open>
  \<open>tok.Sign(key)\<close> of the SDK: it writes the user of the key as the issuer of the token,
  computes the signature of the key over the token so completed and writes it. The
  result is the error or the token after the call.
\<close>

definition session_Sign :: "sdk \<Rightarrow> PrivateKey \<Rightarrow> session_Object \<Rightarrow> string + session_Object" where
  "session_Sign S k tok =
     (let tok = tok\<lparr>t_issuer := Some (user_IDFromKey S k)\<rparr>
      in case signature_Calculate S k tok of
           Inl e \<Rightarrow> Inl e
         | Inr sg \<Rightarrow> Inr (tok\<lparr>t_signature := Some sg\<rparr>))"

text \<open>
  A Go map is ranged over in an order the runtime chooses. The \<open>headers\<close> argument is the
  map as the list of its entries in the order of that one iteration.
\<close>

definition Client_Put ::
  "sdk \<Rightarrow> node \<Rightarrow> Client \<Rightarrow> string \<Rightarrow> (string \<times> string) list \<Rightarrow> bytes \<Rightarrow>
   PutResponse outcome \<times> Client \<times> event list" where
  "Client_Put S N c inputContainerID headers payload =
     (case cid_DecodeString S inputContainerID of
        Inl e \<Rightarrow> (Panic (PanicError e), c, [])
      | Inr containerID \<Rightarrow>
          (let addr = \<lparr>a_containerID = Some containerID, a_objectID = None\<rparr>;
               tok = (c_tok c)\<lparr>t_verb := Some VerbObjectPut, t_address := Some addr\<rparr>
           in case session_Sign S (c_key c) tok of
                Inl e \<Rightarrow> (Panic (PanicError e), c, [])
              | Inr tok \<Rightarrow>
                  (let owner = user_IDFromKey S (c_key c);
                       attrs = headers;
                       obj = object_New\<lparr>o_containerID := Some containerID,
                                          o_ownerID := Some owner,
                                          o_attributes := attrs\<rparr>
                   in case put N (c_bufsize c) (Some tok) obj payload of
                        (Panic q, tr) \<Rightarrow> (Panic q, c, tr)
                      | (Return (resp, Some e), tr) \<Rightarrow>
                          (Return \<lparr>put_Success = False, put_ObjectID = [], put_Error = e\<rparr>, c, tr)
                      | (Return (None, None), tr) \<Rightarrow> (Panic NilDereference, c, tr)
                      | (Return (Some r, None), tr) \<Rightarrow>
                          (let i = (case r_storedID r of None \<Rightarrow> [] | Some j \<Rightarrow> j)
                           in (Return \<lparr>put_Success = True, put_ObjectID = oid_String S i,
                                        put_Error = []\<rparr>, c, tr)))))"

subsection \<open>\<open>Client.Get\<close>\<close>

text \<open>
  The loop of \<open>Get\<close> from its test \<open>n > 0\<close> on: \<open>k\<close> reads have been made, \<open>sz\<close> bytes
  counted, \<open>tr\<close> is the trace so far. The node may answer a positive count for ever, so
  the loop is a partial function: \<open>None\<close> is a loop that does not end.
\<close>

partial_function (option) get_loop ::
  "node \<Rightarrow> nat \<Rightarrow> int \<Rightarrow> int \<Rightarrow> event list \<Rightarrow> (int \<times> event list) option" where
  "get_loop N k sz n tr =
     (if n > 0
      then get_loop N (Suc k) (sz + n) (fst (nd_Read N k))
             (tr @ [Read (fst (nd_Read N k)) (snd (nd_Read N k))])
      else Some (sz, tr))"

declare get_loop.simps [code]

definition Client_Get ::
  "sdk \<Rightarrow> node \<Rightarrow> Client \<Rightarrow> string \<Rightarrow> string \<Rightarrow>
   (GetResponse outcome \<times> Client \<times> event list) option" where
  "Client_Get S N c inputContainerID inputObjectID =
     (if c_bufsize c < 0 then Some (Panic MakeSliceOutOfRange, c, [])
      else
        (case cid_DecodeString S inputContainerID of
           Inl e \<Rightarrow> Some (Panic (PanicError e), c, [])
         | Inr containerID \<Rightarrow>
             (case oid_DecodeString S inputObjectID of
                Inl e \<Rightarrow> Some (Panic (PanicError e), c, [])
              | Inr objectID \<Rightarrow>
                  (let addr = \<lparr>a_containerID = Some containerID, a_objectID = Some objectID\<rparr>;
                       tok = (c_tok c)\<lparr>t_verb := Some VerbObjectGet, t_address := Some addr\<rparr>
                   in case session_Sign S (c_key c) tok of
                        Inl e \<Rightarrow> Some (Panic (PanicError e), c, [])
                      | Inr tok \<Rightarrow>
                          (let prm = \<lparr>g_objectID = objectID, g_containerID = containerID,
                                      g_session = tok\<rparr>;
                               t0 = [Report objGetTotal, ObjectGetInit prm]
                           in case nd_ObjectGetInit N prm of
                                Some e \<Rightarrow>
                                  Some (Return \<lparr>get_Success = False, get_Error = e\<rparr>, c,
                                        t0 @ [Report objGetFails])
                              | None \<Rightarrow>
                                  if \<not> nd_ReadHeader N then
                                    (let t1 = t0 @ [ReadHeader False, Report objGetFails, GetClose]
                                     in case nd_GetClose N of
                                          None \<Rightarrow> Some (Panic NilDereference, c, t1)
                                        | Some e \<Rightarrow>
                                            Some (Return \<lparr>get_Success = False, get_Error = e\<rparr>,
                                                  c, t1))
                                  else
                                    (case get_loop N 1 0 (fst (nd_Read N 0))
                                            (t0 @ [ReadHeader True,
                                                   Read (fst (nd_Read N 0)) (snd (nd_Read N 0))]) of
                                       None \<Rightarrow> None
                                     | Some (sz, tr) \<Rightarrow>
                                         (case nd_GetClose N of
                                            Some e \<Rightarrow>
                                              Some (Return \<lparr>get_Success = False, get_Error = e\<rparr>,
                                                    c, tr @ [GetClose, Report objGetFails])
                                          | None \<Rightarrow>
                                              Some (Return \<lparr>get_Success = True, get_Error = []\<rparr>,
                                                    c, tr @ [GetClose, Report objGetDuration,
                                                             ReportDataReceived sz]))))))))"

subsection \<open>\<open>PreparedObject.Put\<close>\<close>

text \<open>
  The receiver is passed by value and \<open>obj := p.hdr\<close> copies the object, but the copy
  shares the header of the prepared object: \<open>obj.SetAttributes\<close> writes the attributes
  of \<open>p.hdr\<close> as well, in the receiver and in the caller's prepared object alike.
  \<open>SetID\<close> and the signature are written to the copy only. The function returns, next
  to the response, the prepared object as the caller holds it after the call.
\<close>

definition PreparedObject_Put ::
  "sdk \<Rightarrow> node \<Rightarrow> PreparedObject \<Rightarrow> (string \<times> string) list \<Rightarrow>
   PutResponse outcome \<times> PreparedObject \<times> event list" where
  "PreparedObject_Put S N p headers =
     (let obj = p_hdr p;
          attrs = headers;
          obj = obj\<lparr>o_attributes := attrs\<rparr>;
          p = p\<lparr>p_hdr := (p_hdr p)\<lparr>o_attributes := attrs\<rparr>\<rparr>
      in case object_CalculateID S obj of
           Inl e \<Rightarrow> (Return \<lparr>put_Success = False, put_ObjectID = [], put_Error = e\<rparr>, p, [])
         | Inr i \<Rightarrow>
             (let obj = obj\<lparr>o_ID := Some i\<rparr>
              in case object_CalculateIDSignature S (p_key p) obj of
                   Inl e \<Rightarrow>
                     (Return \<lparr>put_Success = False, put_ObjectID = [], put_Error = e\<rparr>, p, [])
                 | Inr sg \<Rightarrow>
                     (let obj = obj\<lparr>o_signature := Some sg\<rparr>
                      in case put N (p_bufsize p) None obj (p_payload p) of
                           (Panic q, tr) \<Rightarrow> (Panic q, p, tr)
                         | (Return (resp, Some e), tr) \<Rightarrow>
                             (Return \<lparr>put_Success = False, put_ObjectID = [], put_Error = e\<rparr>,
                              p, tr)
                         | (Return (resp, None), tr) \<Rightarrow>
                             (Return \<lparr>put_Success = True, put_ObjectID = oid_String S i,
                                       put_Error = []\<rparr>, p, tr))))"

subsection \<open>Reading a trace\<close>

text \<open>The chunk writes of a trace with the stream's answers, the headers written, the
  session tokens presented to the node, and the number of reports of a metric.\<close>

fun chunk_of :: "event \<Rightarrow> (bytes \<times> bool) list" where
  "chunk_of (WritePayloadChunk chunk ok) = [(chunk, ok)]"
| "chunk_of _ = []"

definition chunks_written :: "event list \<Rightarrow> (bytes \<times> bool) list" where
  "chunks_written tr = concat (map chunk_of tr)"

fun header_of :: "event \<Rightarrow> Object list" where
  "header_of (WriteHeader hdr ok) = [hdr]"
| "header_of _ = []"

definition headers_written :: "event list \<Rightarrow> Object list" where
  "headers_written tr = concat (map header_of tr)"

fun token_of :: "event \<Rightarrow> session_Object list" where
  "token_of (WithinSession t) = [t]"
| "token_of (ObjectGetInit prm) = [g_session prm]"
| "token_of _ = []"

definition tokens_presented :: "event list \<Rightarrow> session_Object list" where
  "tokens_presented tr = concat (map token_of tr)"

definition write_events :: "(bytes \<times> bool) list \<Rightarrow> event list" where
  "write_events ws = map (\<lambda>w. WritePayloadChunk (fst w) (snd w)) ws"

definition reports :: "metric \<Rightarrow> event list \<Rightarrow> nat" where
  "reports m tr = count_list tr (Report m)"

subsection \<open>What the node is to be sent\<close>

text \<open>
  The session token of the specification's \<open>scope(template, verb, targetAddress)\<close>: \<open>t\<close>
  is the template bound to exactly the verb and the address, issued by the user of the
  key, with the signature of the key over that binding, and nothing else changed.
\<close>

definition scoped ::
  "sdk \<Rightarrow> PrivateKey \<Rightarrow> session_Object \<Rightarrow> Verb \<Rightarrow> Address \<Rightarrow> session_Object \<Rightarrow> bool" where
  "scoped S k template verb addr t =
     (case signature_Calculate S k
             (template\<lparr>t_verb := Some verb, t_address := Some addr,
                t_issuer := Some (user_IDFromKey S k)\<rparr>) of
        Inl e \<Rightarrow> False
      | Inr sg \<Rightarrow>
          t = template\<lparr>t_verb := Some verb, t_address := Some addr,
                t_issuer := Some (user_IDFromKey S k), t_signature := Some sg\<rparr>)"

text \<open>
  The flag of the network's configuration, in the specification's words the
  boolean-encoded flag for homomorphic hashing being disabled: the decoded value of the
  \<open>HomomorphicHashingDisabled\<close> parameter (of the last one, should the configuration
  hold several), and false when the configuration has none.
\<close>

definition network_hhDisabled :: "sdk \<Rightarrow> NetworkInfo \<Rightarrow> bool" where
  "network_hhDisabled S ni =
     (case filter (\<lambda>p. fst p = ''HomomorphicHashingDisabled'') (n_parameters ni) of
        [] \<Rightarrow> False
      | p # ps \<Rightarrow> fst (stackitem_TryBool S (snd (last (p # ps)))))"

text \<open>
  The object of the specification's \<open>finalize(header, attributes, signingKey)\<close>: \<open>obj\<close> is
  the prepared header with the attributes set, the identifier computed over that header
  and the signature of the key, and nothing else changed.
\<close>

definition finalized ::
  "sdk \<Rightarrow> PreparedObject \<Rightarrow> (string \<times> string) list \<Rightarrow> Object \<Rightarrow> bool" where
  "finalized S p attrs obj =
     (case object_CalculateID S ((p_hdr p)\<lparr>o_attributes := attrs\<rparr>) of
        Inl e \<Rightarrow> False
      | Inr i \<Rightarrow>
          (case object_CalculateIDSignature S (p_key p)
                  ((p_hdr p)\<lparr>o_attributes := attrs, o_ID := Some i\<rparr>) of
             Inl e \<Rightarrow> False
           | Inr sg \<Rightarrow>
               obj = (p_hdr p)\<lparr>o_attributes := attrs, o_ID := Some i, o_signature := Some sg\<rparr>))"

text \<open>The request \<open>Get\<close> opens its stream with, given the decoded identifiers and the
  signed token.\<close>

definition get_request :: "cid_ID \<Rightarrow> oid_ID \<Rightarrow> session_Object \<Rightarrow> PrmObjectGet" where
  "get_request containerID objectID tok =
     \<lparr>g_objectID = objectID, g_containerID = containerID, g_session = tok\<rparr>"

subsection \<open>Concrete collaborators\<close>

text \<open>
  An SDK and nodes to run the model on. \<open>TryBool_example\<close> decodes as neo-go's
  \<open>ByteArray.TryBool\<close> does: more than 32 bytes is an error, otherwise any non-zero byte
  is \<open>true\<close>.
\<close>

definition TryBool_example :: "bytes \<Rightarrow> bool \<times> error" where
  "TryBool_example b =
     (if length b > 32 then (False, Some ''too big integer'')
      else (list_ex (\<lambda>x. x \<noteq> 0) b, None))"

definition sdk_example :: sdk where
  "sdk_example =
     \<lparr>cid_DecodeString = (\<lambda>s. if s = [] then Inl ''empty container id'' else Inr [1]),
      oid_DecodeString = (\<lambda>s. if s = [] then Inl ''empty object id'' else Inr [2]),
      oid_String = (\<lambda>i. replicate (length i) CHR ''x''),
      signature_Calculate = (\<lambda>k t. Inr [3]),
      user_IDFromKey = (\<lambda>k. [4]),
      version_Current = ''2.12'',
      sha256_Sum256 = (\<lambda>d. 5 # d),
      tz_Sum = (\<lambda>d. 6 # d),
      object_CalculateID =
        (\<lambda>obj. Inr (replicate (Suc (length (concat (map fst (o_attributes obj))))) 7)),
      object_CalculateIDSignature = (\<lambda>k obj. Inr [8]),
      stackitem_TryBool = TryBool_example\<rparr>"

definition token_example :: session_Object where
  "token_example =
     \<lparr>t_verb = None, t_address = None, t_issuer = None, t_signature = None, t_body = [9]\<rparr>"

definition client_example :: Client where
  "client_example = \<lparr>c_key = 1, c_tok = token_example, c_bufsize = 2\<rparr>"

text \<open>The object \<open>Onsite\<close> prepares from the payload \<open>[1, 2, 3, 4]\<close> on \<open>node_example\<close>.\<close>

definition prepared_example :: PreparedObject where
  "prepared_example =
     \<lparr>p_key = 1, p_bufsize = 2,
      p_hdr = \<lparr>o_version = Some ''2.12'', o_type = Some TypeRegular,
        o_containerID = Some [1], o_ownerID = Some [4],
        o_payloadSize = Some 4, o_creationEpoch = Some 10,
        o_payloadChecksum = Some (SHA256 [5, 1, 2, 3, 4]),
        o_payloadHomomorphicHash = Some (TillichZemor [6, 1, 2, 3, 4]),
        o_attributes = [], o_ID = None, o_signature = None\<rparr>,
      p_payload = [1, 2, 3, 4]\<rparr>"

text \<open>A node that accepts everything; its network allows objects of 4 bytes, and an
  object read from it comes in reads of 2, 1 and 0 bytes.\<close>

definition node_example :: node where
  "node_example =
     \<lparr>nd_NetworkInfo = Inr \<lparr>n_CurrentEpoch = 10,
                             n_parameters = [(''MaxObjectSize'', [4, 0, 0, 0, 0, 0, 0, 0])]\<rparr>,
      nd_ObjectPutInit = None,
      nd_WriteHeader = (\<lambda>hdr. True),
      nd_WritePayloadChunk = (\<lambda>k chunk. True),
      nd_PutClose = (Some \<lparr>r_storedID = Some [7]\<rparr>, None),
      nd_ObjectGetInit = (\<lambda>prm. None),
      nd_ReadHeader = True,
      nd_Read = (\<lambda>k. if k = 0 then (2, None) else if k = 1 then (1, Some ''slow'') else (0, Some ''EOF'')),
      nd_GetClose = None\<rparr>"

text \<open>The same node with a maximum object size of \<open>2^63\<close>.\<close>

definition node_huge_limit :: node where
  "node_huge_limit =
     node_example\<lparr>nd_NetworkInfo :=
       Inr \<lparr>n_CurrentEpoch = 10,
            n_parameters = [(''MaxObjectSize'', [0, 0, 0, 0, 0, 0, 0, 128])]\<rparr>\<rparr>"

text \<open>The same node with the flag set to false in its configuration.\<close>

definition node_flag_false :: node where
  "node_flag_false =
     node_example\<lparr>nd_NetworkInfo :=
       Inr \<lparr>n_CurrentEpoch = 10,
            n_parameters = [(''HomomorphicHashingDisabled'', [0]),
                            (''MaxObjectSize'', [4, 0, 0, 0, 0, 0, 0, 0])]\<rparr>\<rparr>"

text \<open>The same node with a configuration that has the flag and no maximum object size.\<close>

definition node_no_limit :: node where
  "node_no_limit =
     node_example\<lparr>nd_NetworkInfo :=
       Inr \<lparr>n_CurrentEpoch = 10,
            n_parameters = [(''HomomorphicHashingDisabled'', [1])]\<rparr>\<rparr>"

text \<open>A node that rejects the second chunk of a PUT.\<close>

definition node_rejecting_second :: node where
  "node_rejecting_second = node_example\<lparr>nd_WritePayloadChunk := (\<lambda>k chunk. k \<noteq> 1)\<rparr>"

text \<open>A node that rejects the header of a PUT, or has no header for a GET, and whose
  streams then close without an error.\<close>

definition node_header_rejected :: node where
  "node_header_rejected =
     node_example\<lparr>nd_WriteHeader := (\<lambda>hdr. False), nd_ReadHeader := False\<rparr>"

section \<open>The buffer size setting\<close>

text \<open>
  Claim C8. For every integer size, \<open>SetBufferSize\<close> stores the default of 64 KiB
  (65536) when the size is zero, stores the size itself when it is positive, and panics
  when it is negative, leaving the client, its buffer size included, as it was.
\<close>

theorem SetBufferSize_cases:
  "(sz = 0 \<longrightarrow> SetBufferSize c sz = (Return (), c\<lparr>c_bufsize := 65536\<rparr>)) \<and>
   (0 < sz \<longrightarrow> SetBufferSize c sz = (Return (), c\<lparr>c_bufsize := sz\<rparr>)) \<and>
   (sz < 0 \<longrightarrow> SetBufferSize c sz = (Panic PanicBufferSize, c))"
  by (simp add: SetBufferSize_def defaultBufferSize_def)

theorem SetBufferSize_cases_witness:
  "SetBufferSize client_example 0 = (Return (), client_example\<lparr>c_bufsize := 65536\<rparr>) \<and>
   SetBufferSize client_example 4096 = (Return (), client_example\<lparr>c_bufsize := 4096\<rparr>) \<and>
   SetBufferSize client_example (- 1) = (Panic PanicBufferSize, client_example)"
  using SetBufferSize_cases [of 0 client_example] SetBufferSize_cases [of 4096 client_example]
    SetBufferSize_cases [of "- 1" client_example]
  by simp

section \<open>The size limit of \<open>Onsite\<close>\<close>

text \<open>
  \<open>Onsite\<close> compares the payload length with \<open>int(maxObjectSize)\<close>. Once the network
  parameters are resolved it panics with \<open>PayloadTooLarge\<close> exactly when the length
  exceeds that signed value, and for a limit below \<open>2^63\<close> the signed value is the limit.
\<close>

lemma sint_eq_uint_below:
  fixes w :: uint64
  assumes "w < 2 ^ 63"
  shows "sint w = uint w"
proof -
  have lt: "uint w < 2 ^ 63"
    using assms by (simp add: word_less_def)
  have ge: "- (2 ^ 63) \<le> uint w"
    by (rule order_trans [of _ 0]) simp_all
  have "signed_take_bit 63 (uint w) = uint w"
    using ge lt by (rule signed_take_bit_int_eq_self)
  then show ?thesis
    by (simp add: sint_uint)
qed

lemma Onsite_PayloadTooLarge_iff:
  "parseNetworkInfo S N = (maxObjectSize, epoch, hhDisabled, None) \<Longrightarrow>
   (fst (Onsite S N c inputContainerID payload) = Panic (PayloadTooLarge ln lim)) \<longleftrightarrow>
   (int (length payload) > sint maxObjectSize \<and> ln = int (length payload) \<and> lim = maxObjectSize)"
  by (auto simp: Onsite_def Let_def split: sum.splits)

lemma Onsite_PayloadTooLarge_below_2_63:
  assumes "parseNetworkInfo S N = (maxObjectSize, epoch, hhDisabled, None)"
    and "maxObjectSize < 2 ^ 63"
  shows "(\<exists>ln lim. fst (Onsite S N c inputContainerID payload) = Panic (PayloadTooLarge ln lim)) \<longleftrightarrow>
         int (length payload) > uint maxObjectSize"
  using Onsite_PayloadTooLarge_iff [OF assms(1)] sint_eq_uint_below [OF assms(2)]
  by auto

text \<open>
  Claim C1. \<open>Onsite\<close> raises \<open>PayloadTooLarge\<close> if and only if the payload length strictly
  exceeds the resolved maximum object size. The code does not do so for a limit of
  \<open>2^63\<close> or more: with the limit \<open>2^63\<close> the conversion to \<open>int\<close> is negative, and the
  empty payload, whose length 0 does not exceed the limit, is refused with
  \<open>PayloadTooLarge\<close>.
\<close>

theorem Onsite_refuses_empty_payload_at_huge_limit:
  "parseNetworkInfo S node_huge_limit = (0x8000000000000000, 10, False, None) \<and>
   fst (Onsite S node_huge_limit c inputContainerID []) =
     Panic (PayloadTooLarge 0 0x8000000000000000) \<and>
   \<not> int (length ([] :: bytes)) > uint (0x8000000000000000 :: uint64)"
  by (simp add: Onsite_def parseNetworkInfo_def node_huge_limit_def node_example_def
      parameter_func_def copy_def LittleEndian_Uint64_def)

section \<open>The required parameter of \<open>parseNetworkInfo\<close>\<close>

text \<open>
  \<open>parseNetworkInfo\<close> presets \<open>err\<close> to the missing-size error and every decoded
  \<open>HomomorphicHashingDisabled\<close> overwrites it with the decoder's. When the flag comes
  last and every flag decodes, the function returns no error, whatever else the
  configuration holds.
\<close>

lemma IterateParameters_flag_last:
  assumes "snd (stackitem_TryBool S v) = None"
    and "list_all (\<lambda>p. fst p = ''HomomorphicHashingDisabled'' \<longrightarrow>
                         snd (stackitem_TryBool S (snd p)) = None) ps"
  shows "snd (snd (IterateParameters (parameter_func S)
           (ps @ [(''HomomorphicHashingDisabled'', v)]) st)) = None"
  using assms(2)
proof (induction ps arbitrary: st)
  case Nil
  then show ?case
    using assms(1) by (cases st) (auto simp: parameter_func_def split: prod.splits)
next
  case (Cons p ps)
  have "\<not> fst (parameter_func S p st)"
    using Cons.prems
    by (cases st) (auto simp: parameter_func_def Let_def split: prod.splits)
  then show ?case
    using Cons.IH [of "snd (parameter_func S p st)"] Cons.prems
    by (cases "parameter_func S p st") simp
qed

text \<open>
  Claim C2. \<open>parseNetworkInfo\<close> returns an error whenever the \<open>MaxObjectSize\<close> parameter
  is absent. The code does not: for the configuration whose only parameter is a
  decodable \<open>HomomorphicHashingDisabled\<close> it returns the limit 0 and no error.
\<close>

theorem parseNetworkInfo_missing_size_no_error:
  "nd_NetworkInfo node_no_limit =
     Inr \<lparr>n_CurrentEpoch = 10, n_parameters = [(''HomomorphicHashingDisabled'', [1])]\<rparr> \<and>
   \<not> list_ex (\<lambda>p. fst p = ''MaxObjectSize'') [(''HomomorphicHashingDisabled'', [1 :: byte])] \<and>
   parseNetworkInfo sdk_example node_no_limit = (0, 10, True, None)"
  by (simp add: parseNetworkInfo_def node_no_limit_def node_example_def parameter_func_def
      sdk_example_def TryBool_example_def)

section \<open>The streaming loop of \<open>put\<close>\<close>

text \<open>
  The loop is entered with the buffer holding the first \<open>n\<close> bytes read at offset \<open>off\<close>
  of the payload and the reader standing behind them. The lemma \<open>put_loop_chunks\<close> carries
  that invariant through the recursion.
\<close>

lemma chunks_written_write_events [simp]: "chunks_written (write_events ws) = ws"
  by (induction ws) (simp_all add: chunks_written_def write_events_def)

lemma chunks_written_append [simp]:
  "chunks_written (xs @ ys) = chunks_written xs @ chunks_written ys"
  by (simp add: chunks_written_def)

lemma rdr_Read_count: "length buf = bs \<Longrightarrow> fst (rdr_Read s i buf) = min bs (length s - i)"
  by (simp add: rdr_Read_def copy_def Let_def)

lemma rdr_Read_position:
  "length buf = bs \<Longrightarrow> fst (snd (rdr_Read s i buf)) = i + min bs (length s - i)"
  by (simp add: rdr_Read_def copy_def Let_def)

lemma rdr_Read_length: "length buf = bs \<Longrightarrow> length (snd (snd (rdr_Read s i buf))) = bs"
  by (auto simp: rdr_Read_def copy_def Let_def)

lemma rdr_Read_buffer:
  "length buf = bs \<Longrightarrow>
   take (min bs (length s - i)) (snd (snd (rdr_Read s i buf))) = take (min bs (length s - i)) (drop i s)"
  by (auto simp: rdr_Read_def copy_def Let_def)

lemma put_loop_chunks:
  assumes "length buf = bs" and "0 < bs" and "n = min bs (length s - off)" and "i = off + n"
    and "take n buf = take n (drop off s)"
  shows "\<exists>ws. put_loop N s i buf n k = write_events ws \<and>
           list_all (\<lambda>w. fst w \<noteq> [] \<and> length (fst w) \<le> bs) ws \<and>
           (\<forall>j<length ws. snd (ws ! j) = nd_WritePayloadChunk N (k + j) (fst (ws ! j))) \<and>
           list_all snd (butlast ws) \<and>
           prefix (concat (map fst ws)) (drop off s) \<and>
           (list_all snd ws \<longrightarrow> concat (map fst ws) = drop off s)"
  using assms
proof (induction N s i buf n k arbitrary: off rule: put_loop.induct)
  case (1 N s i buf n k)
  show ?case
  proof (cases "0 < n")
    case False
    then have "drop off s = []"
      using "1.prems" by (simp add: min_def split: if_splits)
    with False show ?thesis
      by (intro exI [of _ "[]"]) (simp add: write_events_def put_loop.simps)
  next
    case True
    define chunk where "chunk = take n buf"
    have chunk: "chunk = take n (drop off s)" "chunk \<noteq> []" "length chunk \<le> bs"
      using True "1.prems" by (auto simp: chunk_def min_def split: if_splits)
    have "drop n (drop off s) = drop i s"
      by (simp only: "1.prems"(4) drop_drop add.commute)
    then have split: "drop off s = chunk @ drop i s"
      using append_take_drop_id [of n "drop off s"] by (simp only: chunk(1))
    show ?thesis
    proof (cases "nd_WritePayloadChunk N k chunk")
      case False
      then have "put_loop N s i buf n k = write_events [(chunk, False)]"
        using True by (subst put_loop.simps) (simp add: chunk_def write_events_def)
      then show ?thesis
        using chunk(2,3) False
        by (intro exI [of _ "[(chunk, False)]"]) (simp add: split)
    next
      case ok: True
      let ?r = "rdr_Read s i buf"
      have "\<exists>ws. put_loop N s (fst (snd ?r)) (snd (snd ?r)) (fst ?r) (Suc k) = write_events ws \<and>
           list_all (\<lambda>w. fst w \<noteq> [] \<and> length (fst w) \<le> bs) ws \<and>
           (\<forall>j<length ws. snd (ws ! j) =
              nd_WritePayloadChunk N (Suc k + j) (fst (ws ! j))) \<and>
           list_all snd (butlast ws) \<and>
           prefix (concat (map fst ws)) (drop i s) \<and>
           (list_all snd ws \<longrightarrow> concat (map fst ws) = drop i s)"
      proof (rule "1.IH" [OF True refl _ _ \<open>0 < bs\<close>])
        show "\<not> \<not> nd_WritePayloadChunk N k (take n buf)"
          using ok by (simp add: chunk_def)
        show "length (snd (snd ?r)) = bs"
          using "1.prems"(1) by (rule rdr_Read_length)
        show "fst ?r = min bs (length s - i)"
          using "1.prems"(1) by (rule rdr_Read_count)
        show "fst (snd ?r) = i + fst ?r"
          using "1.prems"(1) by (simp add: rdr_Read_count rdr_Read_position)
        show "take (fst ?r) (snd (snd ?r)) = take (fst ?r) (drop i s)"
          using "1.prems"(1) by (simp add: rdr_Read_count rdr_Read_buffer)
      qed
      then obtain ws where ws:
        "put_loop N s (fst (snd ?r)) (snd (snd ?r)) (fst ?r) (Suc k) = write_events ws"
        "list_all (\<lambda>w. fst w \<noteq> [] \<and> length (fst w) \<le> bs) ws"
        "list_all snd (butlast ws)"
        "prefix (concat (map fst ws)) (drop i s)"
        "list_all snd ws \<longrightarrow> concat (map fst ws) = drop i s"
        and answers: "\<forall>j<length ws. snd (ws ! j) =
              nd_WritePayloadChunk N (Suc k + j) (fst (ws ! j))"
        by blast
      have answers': "\<forall>j<length ((chunk, True) # ws).
          snd (((chunk, True) # ws) ! j) =
            nd_WritePayloadChunk N (k + j) (fst (((chunk, True) # ws) ! j))"
      proof (intro allI impI)
        fix j
        assume "j < length ((chunk, True) # ws)"
        then show "snd (((chunk, True) # ws) ! j) =
            nd_WritePayloadChunk N (k + j) (fst (((chunk, True) # ws) ! j))"
          using ok answers by (cases j) simp_all
      qed
      have "put_loop N s i buf n k = write_events ((chunk, True) # ws)"
        using True ok ws(1) by (subst put_loop.simps) (simp add: chunk_def write_events_def)
      then show ?thesis
        using ws(2-) chunk(2,3) answers'
        by (intro exI [of _ "(chunk, True) # ws"]) (simp add: split)
    qed
  qed
qed

lemma chunk_at_offset:
  assumes "prefix (concat cs) s" and "j < length cs"
  shows "cs ! j = take (length (cs ! j)) (drop (length (concat (take j cs))) s)"
proof -
  obtain rest where "s = concat cs @ rest"
    using assms(1) by (auto simp: prefix_def)
  moreover have "concat cs = concat (take j cs) @ cs ! j @ concat (drop (Suc j) cs)"
    using assms(2) by (subst id_take_nth_drop [of j cs]) simp_all
  ultimately show ?thesis by simp
qed

text \<open>
  Claim C3. For every payload and every positive buffer size, once the stream is open
  and the header accepted, the trace of \<open>put\<close> is the opening events, then the chunk
  writes \<open>ws\<close>, then the close, then reports only. Every chunk written is non-empty and
  at most the buffer size; chunk \<open>j\<close> is the slice of the payload at the offset where the
  chunks before it end, so the chunks written, concatenated in the order of writing, are
  a prefix of the payload; they are the whole payload when no write is rejected; and a
  rejected write can only be the last one before the close. The answer recorded with
  chunk \<open>j\<close> is the node's answer to that write, so on a node that accepts every write
  the whole payload is written.
\<close>

theorem put_streams_chunks_in_order:
  assumes "0 < bufSize" and "nd_ObjectPutInit N = None" and "nd_WriteHeader N hdr"
  shows "\<exists>ws post.
      snd (put N bufSize tok hdr payload) =
        [Report objPutTotal, ObjectPutInit] @
        (case tok of None \<Rightarrow> [] | Some t \<Rightarrow> [WithinSession t]) @
        [WriteHeader hdr True] @ write_events ws @ [PutClose] @ post \<and>
      chunks_written post = [] \<and>
      list_all (\<lambda>w. fst w \<noteq> [] \<and> int (length (fst w)) \<le> bufSize) ws \<and>
      (\<forall>j<length ws. fst (ws ! j) =
         take (length (fst (ws ! j))) (drop (length (concat (map fst (take j ws)))) payload)) \<and>
      prefix (concat (map fst ws)) payload \<and>
      (list_all snd ws \<longrightarrow> concat (map fst ws) = payload) \<and>
      list_all snd (butlast ws) \<and>
      (\<forall>j<length ws. snd (ws ! j) = nd_WritePayloadChunk N j (fst (ws ! j))) \<and>
      ((\<forall>j chunk. nd_WritePayloadChunk N j chunk) \<longrightarrow> concat (map fst ws) = payload)"
proof -
  define buf :: bytes where "buf = replicate (nat bufSize) 0"
  let ?r = "rdr_Read payload 0 buf"
  have len: "length buf = nat bufSize"
    by (simp add: buf_def)
  have "\<exists>ws. put_loop N payload (fst (snd ?r)) (snd (snd ?r)) (fst ?r) 0 = write_events ws \<and>
           list_all (\<lambda>w. fst w \<noteq> [] \<and> length (fst w) \<le> nat bufSize) ws \<and>
           (\<forall>j<length ws. snd (ws ! j) = nd_WritePayloadChunk N (0 + j) (fst (ws ! j))) \<and>
           list_all snd (butlast ws) \<and>
           prefix (concat (map fst ws)) (drop 0 payload) \<and>
           (list_all snd ws \<longrightarrow> concat (map fst ws) = drop 0 payload)"
  proof (rule put_loop_chunks)
    show "length (snd (snd ?r)) = nat bufSize"
      using len by (rule rdr_Read_length)
    show "0 < nat bufSize"
      using assms(1) by simp
    show "fst ?r = min (nat bufSize) (length payload - 0)"
      using len by (rule rdr_Read_count)
    show "fst (snd ?r) = 0 + fst ?r"
      using len by (simp add: rdr_Read_count rdr_Read_position)
    show "take (fst ?r) (snd (snd ?r)) = take (fst ?r) (drop 0 payload)"
      using len by (simp only: rdr_Read_count rdr_Read_buffer)
  qed
  then obtain ws where ws:
    "put_loop N payload (fst (snd ?r)) (snd (snd ?r)) (fst ?r) 0 = write_events ws"
    "list_all (\<lambda>w. fst w \<noteq> [] \<and> length (fst w) \<le> nat bufSize) ws"
    "list_all snd (butlast ws)"
    "prefix (concat (map fst ws)) payload"
    "list_all snd ws \<longrightarrow> concat (map fst ws) = payload"
    and answers: "\<forall>j<length ws. snd (ws ! j) = nd_WritePayloadChunk N j (fst (ws ! j))"
    by auto
  have accepting: "concat (map fst ws) = payload" if "\<forall>j chunk. nd_WritePayloadChunk N j chunk"
  proof -
    have "list_all snd ws"
      using answers that by (simp add: list_all_length)
    with ws(5) show ?thesis by simp
  qed
  have bound: "list_all (\<lambda>w. fst w \<noteq> [] \<and> int (length (fst w)) \<le> bufSize) ws"
    using ws(2) assms(1) by (auto simp: list_all_iff)
  have offs: "\<forall>j<length ws. fst (ws ! j) =
         take (length (fst (ws ! j))) (drop (length (concat (map fst (take j ws)))) payload)"
    using chunk_at_offset [OF ws(4)] by (simp add: take_map)
  define post where
    "post = (case snd (nd_PutClose N) of
               None \<Rightarrow> [ReportDataSent (int (length payload)), Report objPutDuration]
             | Some e \<Rightarrow> [Report objPutFails])"
  have post: "snd (put N bufSize tok hdr payload) =
        [Report objPutTotal, ObjectPutInit] @
        (case tok of None \<Rightarrow> [] | Some t \<Rightarrow> [WithinSession t]) @
        [WriteHeader hdr True] @ write_events ws @ [PutClose] @ post"
    using assms ws(1) unfolding buf_def post_def
    by (cases "nd_PutClose N"; cases "snd (nd_PutClose N)")
       (simp_all add: put_def Let_def case_prod_beta)
  have "chunks_written post = []"
    by (simp add: post_def chunks_written_def split: option.split)
  with post have "snd (put N bufSize tok hdr payload) =
        [Report objPutTotal, ObjectPutInit] @
        (case tok of None \<Rightarrow> [] | Some t \<Rightarrow> [WithinSession t]) @
        [WriteHeader hdr True] @ write_events ws @ [PutClose] @ post \<and>
      chunks_written post = []"
    by simp
  then show ?thesis
    using bound offs ws(3-5) answers accepting by blast
qed


theorem put_streams_chunks_in_order_witness:
  "(0 :: int) < 2 \<and> nd_ObjectPutInit node_rejecting_second = None \<and>
   nd_WriteHeader node_rejecting_second object_New \<and>
   snd (put node_rejecting_second 2 None object_New [1, 2, 3, 4, 5]) =
     [Report objPutTotal, ObjectPutInit, WriteHeader object_New True,
      WritePayloadChunk [1, 2] True, WritePayloadChunk [3, 4] False, PutClose,
      ReportDataSent 5, Report objPutDuration] \<and>
   (\<exists>ws post.
      snd (put node_rejecting_second 2 None object_New [1, 2, 3, 4, 5]) =
        [Report objPutTotal, ObjectPutInit] @
        (case None of None \<Rightarrow> [] | Some t \<Rightarrow> [WithinSession t]) @
        [WriteHeader object_New True] @ write_events ws @ [PutClose] @ post \<and>
      chunks_written post = [] \<and>
      list_all (\<lambda>w. fst w \<noteq> [] \<and> int (length (fst w)) \<le> 2) ws \<and>
      (\<forall>j<length ws. fst (ws ! j) =
         take (length (fst (ws ! j)))
           (drop (length (concat (map fst (take j ws)))) [1, 2, 3, 4, 5])) \<and>
      prefix (concat (map fst ws)) [1, 2, 3, 4, 5] \<and>
      (list_all snd ws \<longrightarrow> concat (map fst ws) = [1, 2, 3, 4, 5]) \<and>
      list_all snd (butlast ws) \<and>
      (\<forall>j<length ws. snd (ws ! j) =
         nd_WritePayloadChunk node_rejecting_second j (fst (ws ! j))) \<and>
      ((\<forall>j chunk. nd_WritePayloadChunk node_rejecting_second j chunk) \<longrightarrow>
         concat (map fst ws) = [1, 2, 3, 4, 5]))"
proof -
  have h: "(0 :: int) < 2" "nd_ObjectPutInit node_rejecting_second = None"
    "nd_WriteHeader node_rejecting_second object_New"
    by (simp_all add: node_rejecting_second_def node_example_def)
  have "snd (put node_rejecting_second 2 None object_New [1, 2, 3, 4, 5]) =
     [Report objPutTotal, ObjectPutInit, WriteHeader object_New True,
      WritePayloadChunk [1, 2] True, WritePayloadChunk [3, 4] False, PutClose,
      ReportDataSent 5, Report objPutDuration]"
    by (simp add: put_def put_loop.simps rdr_Read_def copy_def Let_def
        node_rejecting_second_def node_example_def numeral_2_eq_2)
  then show ?thesis
    using h put_streams_chunks_in_order [OF h, of None "[1, 2, 3, 4, 5]"] by simp
qed


section \<open>The failure counters\<close>

text \<open>
  The loop of \<open>put\<close> reports nothing. A \<open>put\<close> that returns an error has reported
  \<open>objPutFails\<close> once. A \<open>put\<close> that returns no error has reported it once if the header
  was rejected and not at all otherwise. A \<open>Get\<close> that returns a response has reported
  \<open>objGetFails\<close> once if the response is a failure and not at all if it is a success.
\<close>

lemma reports_put_loop: "reports m (put_loop N s i buf n k) = 0"
proof (induction N s i buf n k rule: put_loop.induct)
  case (1 N s i buf n k)
  then show ?case
    by (subst put_loop.simps) (simp add: reports_def Let_def)
qed

lemma put_error_reported_once:
  assumes "put N bufSize tok hdr payload = (Return (resp, Some e), tr)"
  shows "reports objPutFails tr = 1"
  using assms reports_put_loop [of objPutFails N payload]
  by (auto simp: put_def Let_def reports_def case_prod_beta split: if_splits option.splits)

lemma put_no_error_reports:
  assumes "put N bufSize tok hdr payload = (Return (resp, None), tr)"
  shows "reports objPutFails tr = (if nd_WriteHeader N hdr then 0 else 1)"
  using assms reports_put_loop [of objPutFails N payload]
  by (auto simp: put_def Let_def reports_def case_prod_beta split: if_splits option.splits)

lemma get_loop_reports:
  assumes "get_loop N k sz n tr = Some y"
  shows "reports m (snd y) = reports m tr"
proof (rule get_loop.raw_induct
    [where P = "\<lambda>N k sz n tr y. reports m (snd y) = reports m tr", OF _ assms])
  fix get_loop' :: "node \<Rightarrow> nat \<Rightarrow> int \<Rightarrow> int \<Rightarrow> event list \<Rightarrow> (int \<times> event list) option"
    and N k sz n tr y
  assume IH: "\<And>N k sz n tr y. get_loop' N k sz n tr = Some y \<Longrightarrow>
                reports m (snd y) = reports m tr"
    and step: "(if 0 < n
           then get_loop' N (Suc k) (sz + n) (fst (nd_Read N k))
                  (tr @ [Read (fst (nd_Read N k)) (snd (nd_Read N k))])
           else Some (sz, tr)) = Some y"
  show "reports m (snd y) = reports m tr"
  proof (cases "0 < n")
    case True
    with step IH [of N "Suc k" "sz + n" "fst (nd_Read N k)" _ y] show ?thesis
      by (simp add: reports_def)
  next
    case False
    with step show ?thesis by auto
  qed
qed

lemma Client_Get_reports:
  assumes "Client_Get S N c inputContainerID inputObjectID = Some (Return r, c', tr)"
  shows "reports objGetFails tr = (if get_Success r then 0 else 1)"
  using assms
  by (auto simp: Client_Get_def Let_def reports_def split: if_splits sum.splits option.splits
      dest!: get_loop_reports [where m = objGetFails])

text \<open>
  \<open>PreparedObject.Put\<close> answers a failure without any report when the identifier
  cannot be computed: the transfer has not started.
\<close>

lemma PreparedObject_Put_identity_failed:
  "object_CalculateID S ((p_hdr p)\<lparr>o_attributes := attrs\<rparr>) = Inl e \<Longrightarrow>
   fst (PreparedObject_Put S N p attrs) =
     Return \<lparr>put_Success = False, put_ObjectID = [], put_Error = e\<rparr> \<and>
   snd (snd (PreparedObject_Put S N p attrs)) = []"
  by (simp add: PreparedObject_Put_def)

text \<open>
  Claim C4. A transfer that returns a failed result has reported the failure counter
  exactly once, and one that returns a successful result has not reported it. The code
  breaks the second half: when the node rejects the header and the close of the stream
  returns no error, \<open>put\<close> has reported \<open>objPutFails\<close> and returns a nil error, and
  \<open>PreparedObject.Put\<close> answers success.
\<close>

theorem put_header_rejected_reports_failure_and_succeeds:
  "put node_header_rejected 2 None hdr payload =
     (Return (None, None),
      [Report objPutTotal, ObjectPutInit, WriteHeader hdr False, Report objPutFails, PutClose]) \<and>
   reports objPutFails (snd (put node_header_rejected 2 None hdr payload)) = 1 \<and>
   fst (PreparedObject_Put sdk_example node_header_rejected
          \<lparr>p_key = 1, p_bufsize = 2, p_hdr = object_New, p_payload = [1, 2, 3]\<rparr> []) =
     Return \<lparr>put_Success = True, put_ObjectID = ''x'', put_Error = []\<rparr> \<and>
   reports objPutFails (snd (snd (PreparedObject_Put sdk_example node_header_rejected
          \<lparr>p_key = 1, p_bufsize = 2, p_hdr = object_New, p_payload = [1, 2, 3]\<rparr> []))) = 1"
  by (simp add: put_def PreparedObject_Put_def node_header_rejected_def node_example_def reports_def
     sdk_example_def Let_def)

section \<open>The close after a failed header\<close>

text \<open>
  Claim C9. When \<open>put\<close> returns a nil error its response is not nil, and when the header
  read of \<open>Get\<close> fails the close returns an error. The code relies on both and checks
  neither: on a node that rejects the header and closes without an error, \<open>put\<close>
  returns the pair of nil and nil and \<open>Client.Put\<close> dereferences the nil response; on a
  node that has no header and closes without an error, \<open>Client.Get\<close> calls \<open>Error\<close> on
  the nil error.
\<close>

theorem header_failure_nil_dereference:
  "fst (put node_header_rejected 2 tok hdr payload) = Return (None, None) \<and>
   fst (Client_Put sdk_example node_header_rejected client_example ''c'' headers payload) =
     Panic NilDereference \<and>
   nd_ReadHeader node_header_rejected = False \<and> nd_GetClose node_header_rejected = None \<and>
   map_option fst (Client_Get sdk_example node_header_rejected client_example ''c'' ''o'') =
     Some (Panic NilDereference)"
  by (simp add: Client_Put_def Client_Get_def session_Sign_def put_def node_header_rejected_def
     node_example_def sdk_example_def client_example_def Let_def)


section \<open>The checksums of a prepared object\<close>

text \<open>
  When the scan of the configuration ends without an error, every flag parameter has
  been decoded and the flag \<open>parseNetworkInfo\<close> returns is the decoded value of the last
  one, or false when there is none: it is the flag of the network's configuration.
\<close>

lemma IterateParameters_flag:
  assumes "IterateParameters (parameter_func S) ps (m, hh, err) = (m', hh', None)"
  shows "hh' = (case filter (\<lambda>p. fst p = ''HomomorphicHashingDisabled'') ps of
                  [] \<Rightarrow> hh
                | q # qs \<Rightarrow> fst (stackitem_TryBool S (snd (last (q # qs)))))"
  using assms
proof (induction ps arbitrary: m hh err)
  case Nil
  then show ?case by simp
next
  case (Cons p ps)
  consider (size) "fst p = ''MaxObjectSize''"
    | (flag) "fst p = ''HomomorphicHashingDisabled''"
    | (other) "fst p \<noteq> ''MaxObjectSize''" "fst p \<noteq> ''HomomorphicHashingDisabled''"
    by blast
  then show ?case
  proof cases
    case size
    then have "parameter_func S p (m, hh, err) =
                 (False, LittleEndian_Uint64 (snd (copy (replicate 8 0) (snd p))), hh, None)"
      by (simp add: parameter_func_def Let_def)
    then have "IterateParameters (parameter_func S) ps
                 (LittleEndian_Uint64 (snd (copy (replicate 8 0) (snd p))), hh, None) =
               (m', hh', None)"
      using Cons.prems by simp
    from Cons.IH [OF this] size show ?thesis by simp
  next
    case flag
    obtain b e where dec: "stackitem_TryBool S (snd p) = (b, e)"
      by (cases "stackitem_TryBool S (snd p)")
    have step: "parameter_func S p (m, hh, err) = (e \<noteq> None, m, b, e)"
      using flag dec by (simp add: parameter_func_def)
    have "e = None"
    proof (rule ccontr)
      assume "e \<noteq> None"
      then show False
        using Cons.prems step by simp
    qed
    then have "IterateParameters (parameter_func S) ps (m, b, None) = (m', hh', None)"
      using Cons.prems step by simp
    from Cons.IH [OF this] flag dec show ?thesis
      by (simp split: list.splits)
  next
    case other
    then have "parameter_func S p (m, hh, err) = (False, m, hh, err)"
      by (simp add: parameter_func_def)
    then have "IterateParameters (parameter_func S) ps (m, hh, err) = (m', hh', None)"
      using Cons.prems by simp
    from Cons.IH [OF this] other show ?thesis by simp
  qed
qed

lemma parseNetworkInfo_flag:
  assumes "parseNetworkInfo S N = (maxObjectSize, epoch, hhDisabled, None)"
  shows "\<exists>ni. nd_NetworkInfo N = Inr ni \<and> hhDisabled = network_hhDisabled S ni"
proof (cases "nd_NetworkInfo N")
  case (Inl e)
  with assms show ?thesis by (simp add: parseNetworkInfo_def)
next
  case (Inr ni)
  obtain m hh err where it: "IterateParameters (parameter_func S) (n_parameters ni)
      (0, False, Some ''network configuration misses max object size value'') = (m, hh, err)"
    by (metis prod_cases3)
  with assms Inr have "hh = hhDisabled" "err = None"
    by (simp_all add: parseNetworkInfo_def)
  with IterateParameters_flag [of S "n_parameters ni" 0 False _ m hh] it
  have "hhDisabled = network_hhDisabled S ni"
    by (simp add: network_hhDisabled_def)
  with Inr show ?thesis by simp
qed

text \<open>
  Claim C6. For every payload \<open>Onsite\<close> accepts, the prepared header carries the SHA-256
  checksum of the payload, and it carries the Tillich-Zemor checksum of the payload if
  and only if the flag of the network's configuration (the decoded
  \<open>HomomorphicHashingDisabled\<close> parameter of the response, false when absent) is false.
  That flag is the one \<open>parseNetworkInfo\<close> resolved, the third component of its result.
\<close>

theorem Onsite_checksums:
  assumes "fst (Onsite S N c inputContainerID payload) = Return p"
  shows "\<exists>ni. nd_NetworkInfo N = Inr ni \<and>
           o_payloadChecksum (p_hdr p) = Some (SHA256 (sha256_Sum256 S payload)) \<and>
           (o_payloadHomomorphicHash (p_hdr p) \<noteq> None \<longleftrightarrow> \<not> network_hhDisabled S ni) \<and>
           (\<not> network_hhDisabled S ni \<longrightarrow>
              o_payloadHomomorphicHash (p_hdr p) = Some (TillichZemor (tz_Sum S payload))) \<and>
           fst (snd (snd (parseNetworkInfo S N))) = network_hhDisabled S ni"
proof -
  obtain maxObjectSize epoch hhDisabled err
    where res: "parseNetworkInfo S N = (maxObjectSize, epoch, hhDisabled, err)"
    by (metis prod_cases4)
  have "err = None"
    using assms res by (cases err) (simp_all add: Onsite_def)
  with res parseNetworkInfo_flag obtain ni
    where ni: "nd_NetworkInfo N = Inr ni" "hhDisabled = network_hhDisabled S ni"
    by blast
  have "o_payloadChecksum (p_hdr p) = Some (SHA256 (sha256_Sum256 S payload)) \<and>
        o_payloadHomomorphicHash (p_hdr p) =
          (if hhDisabled then None else Some (TillichZemor (tz_Sum S payload)))"
    using assms res \<open>err = None\<close>
    by (auto simp: Onsite_def Let_def object_New_def split: if_splits sum.splits)
  then show ?thesis
    using ni res by auto
qed

theorem Onsite_checksums_witness:
  "fst (Onsite sdk_example node_flag_false client_example ''c'' [1, 2, 3, 4]) =
     Return prepared_example \<and>
   nd_NetworkInfo node_flag_false =
     Inr \<lparr>n_CurrentEpoch = 10,
          n_parameters = [(''HomomorphicHashingDisabled'', [0]),
                          (''MaxObjectSize'', [4, 0, 0, 0, 0, 0, 0, 0])]\<rparr> \<and>
   \<not> network_hhDisabled sdk_example
       \<lparr>n_CurrentEpoch = 10,
        n_parameters = [(''HomomorphicHashingDisabled'', [0]),
                        (''MaxObjectSize'', [4, 0, 0, 0, 0, 0, 0, 0])]\<rparr> \<and>
   o_payloadChecksum (p_hdr prepared_example) = Some (SHA256 [5, 1, 2, 3, 4]) \<and>
   o_payloadHomomorphicHash (p_hdr prepared_example) = Some (TillichZemor [6, 1, 2, 3, 4]) \<and>
   fst (Onsite sdk_example node_no_limit client_example ''c'' []) =
     Return \<lparr>p_key = 1, p_bufsize = 2,
       p_hdr = \<lparr>o_version = Some ''2.12'', o_type = Some TypeRegular,
           o_containerID = Some [1], o_ownerID = Some [4],
           o_payloadSize = Some 0, o_creationEpoch = Some 10,
           o_payloadChecksum = Some (SHA256 [5]),
           o_payloadHomomorphicHash = None,
           o_attributes = [], o_ID = None, o_signature = None\<rparr>,
       p_payload = []\<rparr> \<and>
   nd_NetworkInfo node_no_limit =
     Inr \<lparr>n_CurrentEpoch = 10, n_parameters = [(''HomomorphicHashingDisabled'', [1])]\<rparr> \<and>
   network_hhDisabled sdk_example
     \<lparr>n_CurrentEpoch = 10, n_parameters = [(''HomomorphicHashingDisabled'', [1])]\<rparr>"
proof -
  have a: "fst (Onsite sdk_example node_flag_false client_example ''c'' [1, 2, 3, 4]) =
     Return prepared_example"
    by (simp add: Onsite_def parseNetworkInfo_def node_flag_false_def node_example_def
        parameter_func_def copy_def TryBool_example_def prepared_example_def
        LittleEndian_Uint64_def sdk_example_def client_example_def object_New_def Let_def)
  have b: "fst (Onsite sdk_example node_no_limit client_example ''c'' []) =
     Return \<lparr>p_key = 1, p_bufsize = 2,
       p_hdr = \<lparr>o_version = Some ''2.12'', o_type = Some TypeRegular,
           o_containerID = Some [1], o_ownerID = Some [4],
           o_payloadSize = Some 0, o_creationEpoch = Some 10,
           o_payloadChecksum = Some (SHA256 [5]),
           o_payloadHomomorphicHash = None,
           o_attributes = [], o_ID = None, o_signature = None\<rparr>,
       p_payload = []\<rparr>"
    by (simp add: Onsite_def parseNetworkInfo_def node_no_limit_def node_example_def
        parameter_func_def TryBool_example_def
        sdk_example_def client_example_def object_New_def Let_def)
  have nets: "nd_NetworkInfo node_flag_false =
     Inr \<lparr>n_CurrentEpoch = 10,
          n_parameters = [(''HomomorphicHashingDisabled'', [0]),
                          (''MaxObjectSize'', [4, 0, 0, 0, 0, 0, 0, 0])]\<rparr>"
    "nd_NetworkInfo node_no_limit =
     Inr \<lparr>n_CurrentEpoch = 10, n_parameters = [(''HomomorphicHashingDisabled'', [1])]\<rparr>"
    by (simp_all add: node_flag_false_def node_no_limit_def node_example_def)
  show ?thesis
    using a b nets Onsite_checksums [OF a] Onsite_checksums [OF b]
    by (auto simp: prepared_example_def sdk_example_def)
qed


section \<open>The result of \<open>Client.Get\<close>\<close>

text \<open>
  If the reads before the \<open>k\<close>-th have positive counts and the \<open>k\<close>-th has not, the loop
  ends after the \<open>k\<close>-th read with the sum of the counts before it.
\<close>

lemma get_loop_stops:
  assumes "0 < n" and "\<forall>j<k. 0 < fst (nd_Read N (i + j))" and "fst (nd_Read N (i + k)) \<le> 0"
  shows "get_loop N i sz n tr =
         Some (sz + n + (\<Sum>j<k. fst (nd_Read N (i + j))),
               tr @ map (\<lambda>j. Read (fst (nd_Read N j)) (snd (nd_Read N j))) [i..<Suc (i + k)])"
  using assms
proof (induction k arbitrary: i sz n tr)
  case 0
  then show ?case
    by (subst get_loop.simps, subst get_loop.simps) simp
next
  case (Suc k)
  have pos: "0 < fst (nd_Read N i)"
    using Suc.prems(2) [rule_format, of 0] by simp
  have "get_loop N (Suc i) (sz + n) (fst (nd_Read N i))
          (tr @ [Read (fst (nd_Read N i)) (snd (nd_Read N i))]) =
        Some (sz + n + fst (nd_Read N i) + (\<Sum>j<k. fst (nd_Read N (Suc i + j))),
              (tr @ [Read (fst (nd_Read N i)) (snd (nd_Read N i))]) @
              map (\<lambda>j. Read (fst (nd_Read N j)) (snd (nd_Read N j))) [Suc i..<Suc (Suc i + k)])"
  proof (rule Suc.IH [OF pos])
    show "\<forall>j<k. 0 < fst (nd_Read N (Suc i + j))"
      using Suc.prems(2) by (auto dest: spec [of _ "Suc j" for j])
    show "fst (nd_Read N (Suc i + k)) \<le> 0"
      using Suc.prems(3) by simp
  qed
  moreover have "(\<Sum>j<Suc k. fst (nd_Read N (i + j))) =
      fst (nd_Read N i) + (\<Sum>j<k. fst (nd_Read N (Suc i + j)))"
    by (subst sum.lessThan_Suc_shift) simp
  moreover have "[i..<Suc (i + Suc k)] = i # [Suc i..<Suc (Suc i + k)]"
    by (subst upt_conv_Cons) simp_all
  ultimately show ?case
    using Suc.prems(1) by (subst get_loop.simps) (simp only: if_True append_assoc list.map append.simps add.assoc)
qed



lemma get_loop_from_first_read:
  assumes "\<forall>j<k. 0 < fst (nd_Read N j)" and "fst (nd_Read N k) \<le> 0"
  shows "get_loop N 1 0 (fst (nd_Read N 0)) (tr @ [Read (fst (nd_Read N 0)) (snd (nd_Read N 0))]) =
         Some (\<Sum>j<k. fst (nd_Read N j),
               tr @ map (\<lambda>j. Read (fst (nd_Read N j)) (snd (nd_Read N j))) [0..<Suc k])"
proof (cases k)
  case 0
  then show ?thesis
    using assms(2) by (subst get_loop.simps) simp
next
  case (Suc k')
  have pos: "0 < fst (nd_Read N 0)"
    using assms(1) Suc by simp
  have "get_loop N 1 0 (fst (nd_Read N 0)) (tr @ [Read (fst (nd_Read N 0)) (snd (nd_Read N 0))]) =
        Some (0 + fst (nd_Read N 0) + (\<Sum>j<k'. fst (nd_Read N (1 + j))),
              (tr @ [Read (fst (nd_Read N 0)) (snd (nd_Read N 0))]) @
              map (\<lambda>j. Read (fst (nd_Read N j)) (snd (nd_Read N j))) [1..<Suc (1 + k')])"
  proof (rule get_loop_stops [OF pos])
    show "\<forall>j<k'. 0 < fst (nd_Read N (1 + j))"
      using assms(1) Suc by simp
    show "fst (nd_Read N (1 + k')) \<le> 0"
      using assms(2) Suc by simp
  qed
  moreover have "(\<Sum>j<Suc k'. fst (nd_Read N j)) =
      fst (nd_Read N 0) + (\<Sum>j<k'. fst (nd_Read N (1 + j)))"
    by (subst sum.lessThan_Suc_shift) simp
  moreover have "[0..<Suc (Suc k')] = 0 # [1..<Suc (1 + k')]"
    by (subst upt_conv_Cons) simp_all
  ultimately show ?thesis
    unfolding Suc by simp
qed

text \<open>
  Claim C10. When the identifiers decode, the token is signed and the node's reads reach
  a count that is not positive (a zero-length read; \<open>k\<close> is the first such read),
  \<open>Client.Get\<close> returns, and its result is a function of the answers to the stream open,
  the header read and the stream close alone. The loop makes exactly the reads
  \<open>0, \<dots>, k\<close>; the errors of those reads appear nowhere in the result and add no
  failure report; and on success the bytes-received metric is the sum of the counts of
  the reads before the \<open>k\<close>-th.
\<close>

theorem Client_Get_result:
  assumes "0 \<le> c_bufsize c"
    and "cid_DecodeString S inputContainerID = Inr containerID"
    and "oid_DecodeString S inputObjectID = Inr objectID"
    and "session_Sign S (c_key c)
           ((c_tok c)\<lparr>t_verb := Some VerbObjectGet,
              t_address := Some \<lparr>a_containerID = Some containerID,
                                 a_objectID = Some objectID\<rparr>\<rparr>) = Inr tok"
    and "\<forall>j<k. 0 < fst (nd_Read N j)" and "fst (nd_Read N k) \<le> 0"
  shows "Client_Get S N c inputContainerID inputObjectID =
     Some
       (let prm = get_request containerID objectID tok;
            opened = [Report objGetTotal, ObjectGetInit prm];
            reads = map (\<lambda>j. Read (fst (nd_Read N j)) (snd (nd_Read N j))) [0..<Suc k]
        in case nd_ObjectGetInit N prm of
             Some e \<Rightarrow>
               (Return \<lparr>get_Success = False, get_Error = e\<rparr>, c, opened @ [Report objGetFails])
           | None \<Rightarrow>
               if \<not> nd_ReadHeader N then
                 (case nd_GetClose N of
                    None \<Rightarrow> Panic NilDereference
                  | Some e \<Rightarrow> Return \<lparr>get_Success = False, get_Error = e\<rparr>,
                  c, opened @ [ReadHeader False, Report objGetFails, GetClose])
               else
                 (case nd_GetClose N of
                    Some e \<Rightarrow>
                      (Return \<lparr>get_Success = False, get_Error = e\<rparr>, c,
                       opened @ [ReadHeader True] @ reads @ [GetClose, Report objGetFails])
                  | None \<Rightarrow>
                      (Return \<lparr>get_Success = True, get_Error = []\<rparr>, c,
                       opened @ [ReadHeader True] @ reads @
                       [GetClose, Report objGetDuration,
                        ReportDataReceived (\<Sum>j<k. fst (nd_Read N j))])))"
proof -
  note loop = get_loop_from_first_read [OF assms(5,6),
      of "[Report objGetTotal, ObjectGetInit (get_request containerID objectID tok),
           ReadHeader True]"]
  show ?thesis
    using assms(1-4) loop
    by (simp add: Client_Get_def get_request_def Let_def split: option.split)
qed


theorem Client_Get_result_witness:
  "0 \<le> c_bufsize client_example \<and>
   cid_DecodeString sdk_example ''c'' = Inr [1] \<and>
   oid_DecodeString sdk_example ''o'' = Inr [2] \<and>
   session_Sign sdk_example (c_key client_example)
     ((c_tok client_example)\<lparr>t_verb := Some VerbObjectGet,
        t_address := Some \<lparr>a_containerID = Some [1], a_objectID = Some [2]\<rparr>\<rparr>) =
     Inr (token_example\<lparr>t_verb := Some VerbObjectGet,
            t_address := Some \<lparr>a_containerID = Some [1], a_objectID = Some [2]\<rparr>,
            t_issuer := Some [4], t_signature := Some [3]\<rparr>) \<and>
   0 < fst (nd_Read node_example 0) \<and> 0 < fst (nd_Read node_example 1) \<and>
   fst (nd_Read node_example 2) \<le> 0 \<and>
   snd (nd_Read node_example 1) = Some ''slow'' \<and>
   Client_Get sdk_example node_example client_example ''c'' ''o'' =
     Some (Return \<lparr>get_Success = True, get_Error = []\<rparr>, client_example,
           [Report objGetTotal, ObjectGetInit (get_request [1] [2]
              (token_example\<lparr>t_verb := Some VerbObjectGet,
                 t_address := Some \<lparr>a_containerID = Some [1], a_objectID = Some [2]\<rparr>,
                 t_issuer := Some [4], t_signature := Some [3]\<rparr>)),
            ReadHeader True, Read 2 None, Read 1 (Some ''slow''), Read 0 (Some ''EOF''),
            GetClose, Report objGetDuration, ReportDataReceived 3])"
proof -
  have h: "0 \<le> c_bufsize client_example"
    "cid_DecodeString sdk_example ''c'' = Inr [1]"
    "oid_DecodeString sdk_example ''o'' = Inr [2]"
    "session_Sign sdk_example (c_key client_example)
       ((c_tok client_example)\<lparr>t_verb := Some VerbObjectGet,
          t_address := Some \<lparr>a_containerID = Some [1], a_objectID = Some [2]\<rparr>\<rparr>) =
       Inr (token_example\<lparr>t_verb := Some VerbObjectGet,
              t_address := Some \<lparr>a_containerID = Some [1], a_objectID = Some [2]\<rparr>,
              t_issuer := Some [4], t_signature := Some [3]\<rparr>)"
    "\<forall>j<2. 0 < fst (nd_Read node_example j)"
    "fst (nd_Read node_example 2) \<le> 0"
    by (simp_all add: client_example_def sdk_example_def node_example_def session_Sign_def)
  have reads: "map (\<lambda>j. Read (fst (nd_Read node_example j)) (snd (nd_Read node_example j)))
                 [0..<Suc 2] =
               [Read 2 None, Read 1 (Some ''slow''), Read 0 (Some ''EOF'')]"
    by (simp add: node_example_def upt_rec [of 0] upt_rec [of 1] upt_rec [of 2]
        numeral_2_eq_2)
  have total: "(\<Sum>j<2. fst (nd_Read node_example j)) = 3"
    by (simp add: node_example_def numeral_2_eq_2)
  have opens: "nd_ObjectGetInit node_example (get_request [1] [2]
              (token_example\<lparr>t_verb := Some VerbObjectGet,
                 t_address := Some \<lparr>a_containerID = Some [1], a_objectID = Some [2]\<rparr>,
                 t_issuer := Some [4], t_signature := Some [3]\<rparr>)) = None"
    "nd_ReadHeader node_example" "nd_GetClose node_example = None"
    "snd (nd_Read node_example 1) = Some ''slow''"
    "0 < fst (nd_Read node_example 0)" "0 < fst (nd_Read node_example 1)"
    by (simp_all add: node_example_def)
  show ?thesis
    using h opens Client_Get_result [OF h]
    by (simp only: reads total Let_def option.case if_False not_True_eq_False
        append.simps simp_thms)
qed


section \<open>Tokens and headers in a trace\<close>

text \<open>
  The loops write chunks and read chunks only, so the tokens presented and the headers
  written during an operation are those of its opening events.
\<close>

lemma tokens_presented_simps [simp]:
  "tokens_presented [] = []"
  "tokens_presented (e # es) = token_of e @ tokens_presented es"
  by (simp_all add: tokens_presented_def)

lemma headers_written_simps [simp]:
  "headers_written [] = []"
  "headers_written (e # es) = header_of e @ headers_written es"
  by (simp_all add: headers_written_def)

lemma tokens_presented_write_events [simp]: "tokens_presented (write_events ws) = []"
  by (induction ws) (simp_all add: write_events_def)

lemma headers_written_write_events [simp]: "headers_written (write_events ws) = []"
  by (induction ws) (simp_all add: write_events_def)

lemma tokens_presented_append [simp]:
  "tokens_presented (xs @ ys) = tokens_presented xs @ tokens_presented ys"
  by (simp add: tokens_presented_def)

lemma headers_written_append [simp]:
  "headers_written (xs @ ys) = headers_written xs @ headers_written ys"
  by (simp add: headers_written_def)

lemma put_loop_write_events: "\<exists>ws. put_loop N s i buf n k = write_events ws"
proof (induction N s i buf n k rule: put_loop.induct)
  case (1 N s i buf n k)
  show ?case
  proof (cases "0 < n \<and> nd_WritePayloadChunk N k (take n buf)")
    case True
    then obtain ws where
      "put_loop N s (fst (snd (rdr_Read s i buf))) (snd (snd (rdr_Read s i buf)))
         (fst (rdr_Read s i buf)) (Suc k) = write_events ws"
      using "1.IH" [OF _ refl] by auto
    with True have "put_loop N s i buf n k = write_events ((take n buf, True) # ws)"
      by (subst put_loop.simps) (simp add: write_events_def)
    then show ?thesis ..
  next
    case False
    then have "put_loop N s i buf n k =
               write_events (if 0 < n then [(take n buf, False)] else [])"
      by (subst put_loop.simps) (auto simp: write_events_def)
    then show ?thesis ..
  qed
qed

lemma put_tokens:
  "tokens_presented (snd (put N bufSize tok hdr payload)) =
     (if 0 \<le> bufSize \<and> nd_ObjectPutInit N = None
      then (case tok of None \<Rightarrow> [] | Some t \<Rightarrow> [t]) else [])"
proof -
  obtain ws where "put_loop N payload
      (fst (snd (rdr_Read payload 0 (replicate (nat bufSize) 0))))
      (snd (snd (rdr_Read payload 0 (replicate (nat bufSize) 0))))
      (fst (rdr_Read payload 0 (replicate (nat bufSize) 0))) 0 = write_events ws"
    using put_loop_write_events by blast
  then show ?thesis
    by (cases "nd_PutClose N"; cases "snd (nd_PutClose N)"; cases "nd_WriteHeader N hdr")
       (auto simp: put_def Let_def case_prod_beta split: option.splits)
qed

lemma put_headers:
  "headers_written (snd (put N bufSize tok hdr payload)) =
     (if 0 \<le> bufSize \<and> nd_ObjectPutInit N = None then [hdr] else [])"
proof -
  obtain ws where "put_loop N payload
      (fst (snd (rdr_Read payload 0 (replicate (nat bufSize) 0))))
      (snd (snd (rdr_Read payload 0 (replicate (nat bufSize) 0))))
      (fst (rdr_Read payload 0 (replicate (nat bufSize) 0))) 0 = write_events ws"
    using put_loop_write_events by blast
  then show ?thesis
    by (cases "nd_PutClose N"; cases "snd (nd_PutClose N)"; cases "nd_WriteHeader N hdr")
       (auto simp: put_def Let_def case_prod_beta split: option.splits)
qed


section \<open>The session token of \<open>Client.Put\<close> and \<open>Client.Get\<close>\<close>

text \<open>\<open>Sign\<close> succeeds with a token exactly when that token is the scoped one.\<close>

lemma session_Sign_scoped:
  "session_Sign S k (template\<lparr>t_verb := Some verb, t_address := Some addr\<rparr>) = Inr t \<longleftrightarrow>
   scoped S k template verb addr t"
  by (auto simp: session_Sign_def scoped_def Let_def split: sum.splits)

lemma Client_Put_trace:
  assumes "cid_DecodeString S inputContainerID = Inr containerID"
    and "session_Sign S (c_key c)
           ((c_tok c)\<lparr>t_verb := Some VerbObjectPut,
              t_address := Some \<lparr>a_containerID = Some containerID, a_objectID = None\<rparr>\<rparr>) = Inr tok"
  shows "snd (snd (Client_Put S N c inputContainerID headers payload)) =
         snd (put N (c_bufsize c) (Some tok)
           (object_New\<lparr>o_containerID := Some containerID,
              o_ownerID := Some (user_IDFromKey S (c_key c)), o_attributes := headers\<rparr>)
           payload)"
  using assms
  by (simp add: Client_Put_def Let_def split: prod.split outcome.split option.split)

lemma Client_Put_client: "fst (snd (Client_Put S N c inputContainerID headers payload)) = c"
  by (simp add: Client_Put_def Let_def split: sum.split prod.split outcome.split option.split)

lemma Client_Put_tokens:
  "list_all (\<lambda>t.
       case cid_DecodeString S inputContainerID of
         Inl e \<Rightarrow> False
       | Inr containerID \<Rightarrow>
           scoped S (c_key c) (c_tok c) VerbObjectPut
             \<lparr>a_containerID = Some containerID, a_objectID = None\<rparr> t)
     (tokens_presented (snd (snd (Client_Put S N c inputContainerID headers payload))))"
proof (cases "cid_DecodeString S inputContainerID")
  case (Inl e)
  then show ?thesis by (simp add: Client_Put_def)
next
  case (Inr containerID)
  show ?thesis
  proof (cases "session_Sign S (c_key c)
         ((c_tok c)\<lparr>t_verb := Some VerbObjectPut,
            t_address := Some \<lparr>a_containerID = Some containerID, a_objectID = None\<rparr>\<rparr>)")
    case (Inl e)
    with Inr show ?thesis by (simp add: Client_Put_def Let_def)
  next
    case tok: (Inr tok)
    then have "scoped S (c_key c) (c_tok c) VerbObjectPut
                 \<lparr>a_containerID = Some containerID, a_objectID = None\<rparr> tok"
      by (simp add: session_Sign_scoped)
    then show ?thesis
      using Inr by (simp add: Client_Put_trace [OF Inr tok] put_tokens)
  qed
qed

lemma Client_Put_tokens_exact:
  assumes "cid_DecodeString S inputContainerID = Inr containerID"
    and "scoped S (c_key c) (c_tok c) VerbObjectPut
           \<lparr>a_containerID = Some containerID, a_objectID = None\<rparr> t"
  shows "tokens_presented (snd (snd (Client_Put S N c inputContainerID headers payload))) =
         (if 0 \<le> c_bufsize c \<and> nd_ObjectPutInit N = None then [t] else [])"
proof -
  have "session_Sign S (c_key c)
           ((c_tok c)\<lparr>t_verb := Some VerbObjectPut,
              t_address := Some \<lparr>a_containerID = Some containerID, a_objectID = None\<rparr>\<rparr>) = Inr t"
    using assms(2) by (simp add: session_Sign_scoped)
  from Client_Put_trace [OF assms(1) this] show ?thesis
    by (simp add: put_tokens)
qed

lemma get_loop_trace:
  assumes "get_loop N k sz n tr = Some y"
  shows "\<exists>rs. snd y = tr @ map (\<lambda>r. Read (fst r) (snd r)) rs"
proof (rule get_loop.raw_induct
    [where P = "\<lambda>N k sz n tr y. \<exists>rs. snd y = tr @ map (\<lambda>r. Read (fst r) (snd r)) rs",
      OF _ assms])
  fix get_loop' :: "node \<Rightarrow> nat \<Rightarrow> int \<Rightarrow> int \<Rightarrow> event list \<Rightarrow> (int \<times> event list) option"
    and N k sz n tr y
  assume IH: "\<And>N k sz n tr y. get_loop' N k sz n tr = Some y \<Longrightarrow>
                \<exists>rs. snd y = tr @ map (\<lambda>r. Read (fst r) (snd r)) rs"
    and step: "(if 0 < n
           then get_loop' N (Suc k) (sz + n) (fst (nd_Read N k))
                  (tr @ [Read (fst (nd_Read N k)) (snd (nd_Read N k))])
           else Some (sz, tr)) = Some y"
  show "\<exists>rs. snd y = tr @ map (\<lambda>r. Read (fst r) (snd r)) rs"
  proof (cases "0 < n")
    case True
    with step have "get_loop' N (Suc k) (sz + n) (fst (nd_Read N k))
                      (tr @ [Read (fst (nd_Read N k)) (snd (nd_Read N k))]) = Some y"
      by simp
    from IH [OF this]
    obtain rs where "snd y = (tr @ [Read (fst (nd_Read N k)) (snd (nd_Read N k))]) @
                       map (\<lambda>r. Read (fst r) (snd r)) rs"
      by blast
    then have "snd y = tr @ map (\<lambda>r. Read (fst r) (snd r)) (nd_Read N k # rs)"
      by simp
    then show ?thesis ..
  next
    case False
    with step have "snd y = tr @ map (\<lambda>r. Read (fst r) (snd r)) []"
      by auto
    then show ?thesis ..
  qed
qed

lemma tokens_presented_reads [simp]:
  "tokens_presented (map (\<lambda>r. Read (fst r) (snd r)) rs) = []"
  by (induction rs) simp_all

lemma Client_Get_client:
  "Client_Get S N c inputContainerID inputObjectID = Some r \<Longrightarrow> fst (snd r) = c"
  by (auto simp: Client_Get_def Let_def split: if_splits sum.splits option.splits)

lemma Client_Get_tokens:
  assumes "Client_Get S N c inputContainerID inputObjectID = Some r"
  shows "list_all (\<lambda>t.
           case cid_DecodeString S inputContainerID of
             Inl e \<Rightarrow> False
           | Inr containerID \<Rightarrow>
               (case oid_DecodeString S inputObjectID of
                  Inl e \<Rightarrow> False
                | Inr objectID \<Rightarrow>
                    scoped S (c_key c) (c_tok c) VerbObjectGet
                      \<lparr>a_containerID = Some containerID, a_objectID = Some objectID\<rparr> t))
         (tokens_presented (snd (snd r)))"
  using assms
  by (auto simp: Client_Get_def Let_def session_Sign_scoped
      split: if_splits sum.splits option.splits dest!: get_loop_trace)

lemma Client_Get_tokens_exact:
  assumes "cid_DecodeString S inputContainerID = Inr containerID"
    and "oid_DecodeString S inputObjectID = Inr objectID"
    and "scoped S (c_key c) (c_tok c) VerbObjectGet
           \<lparr>a_containerID = Some containerID, a_objectID = Some objectID\<rparr> t"
    and "0 \<le> c_bufsize c"
    and "Client_Get S N c inputContainerID inputObjectID = Some r"
  shows "tokens_presented (snd (snd r)) = [t]"
proof -
  have "session_Sign S (c_key c)
           ((c_tok c)\<lparr>t_verb := Some VerbObjectGet,
              t_address := Some \<lparr>a_containerID = Some containerID,
                                 a_objectID = Some objectID\<rparr>\<rparr>) = Inr t"
    using assms(3) by (simp add: session_Sign_scoped)
  with assms(1,2,4,5) show ?thesis
    by (auto simp: Client_Get_def Let_def split: if_splits option.splits dest!: get_loop_trace)
qed

lemma Client_Get_returns:
  assumes "\<forall>j<k. 0 < fst (nd_Read N j)" and "fst (nd_Read N k) \<le> 0"
  shows "\<exists>r. Client_Get S N c inputContainerID inputObjectID = Some r"
proof -
  have loop: "get_loop N (Suc 0) 0 (fst (nd_Read N 0))
                [a, b, d, Read (fst (nd_Read N 0)) (snd (nd_Read N 0))] =
              Some (\<Sum>j<k. fst (nd_Read N j),
                    [a, b, d] @
                    map (\<lambda>j. Read (fst (nd_Read N j)) (snd (nd_Read N j))) [0..<Suc k])"
    for a b d
    using get_loop_from_first_read [OF assms, of "[a, b, d]"] by simp
  show ?thesis
    by (simp add: Client_Get_def Let_def loop split: sum.split option.split)
qed

text \<open>
  Claim C7. Every session token \<open>Client.Put\<close> presents to the node is the client's
  template bound to the verb PUT and to the address of the decoded container, issued and
  signed with the client's key; every token \<open>Client.Get\<close> presents is the template bound
  to the verb GET and to the address of the decoded container and object, issued and
  signed likewise; and the client (template, key and buffer size) is the same after the
  operation. The token is presented: \<open>Client.Put\<close> presents exactly the scoped token once
  its stream is open and none otherwise, and \<open>Client.Get\<close>, which returns whenever the
  node's reads reach a count that is not positive, presents exactly the scoped token
  with its request.
\<close>

theorem session_token_fresh_and_scoped:
  "fst (snd (Client_Put S N c inputContainerID headers payload)) = c \<and>
   list_all (\<lambda>t.
       case cid_DecodeString S inputContainerID of
         Inl e \<Rightarrow> False
       | Inr containerID \<Rightarrow>
           scoped S (c_key c) (c_tok c) VerbObjectPut
             \<lparr>a_containerID = Some containerID, a_objectID = None\<rparr> t)
     (tokens_presented (snd (snd (Client_Put S N c inputContainerID headers payload)))) \<and>
   (\<forall>r. Client_Get S N c inputContainerID inputObjectID = Some r \<longrightarrow>
      fst (snd r) = c \<and>
      list_all (\<lambda>t.
          case cid_DecodeString S inputContainerID of
            Inl e \<Rightarrow> False
          | Inr containerID \<Rightarrow>
              (case oid_DecodeString S inputObjectID of
                 Inl e \<Rightarrow> False
               | Inr objectID \<Rightarrow>
                   scoped S (c_key c) (c_tok c) VerbObjectGet
                     \<lparr>a_containerID = Some containerID, a_objectID = Some objectID\<rparr> t))
        (tokens_presented (snd (snd r)))) \<and>
   (\<forall>containerID t.
      cid_DecodeString S inputContainerID = Inr containerID \<and>
      scoped S (c_key c) (c_tok c) VerbObjectPut
        \<lparr>a_containerID = Some containerID, a_objectID = None\<rparr> t \<longrightarrow>
      tokens_presented (snd (snd (Client_Put S N c inputContainerID headers payload))) =
        (if 0 \<le> c_bufsize c \<and> nd_ObjectPutInit N = None then [t] else [])) \<and>
   (\<forall>containerID objectID t.
      cid_DecodeString S inputContainerID = Inr containerID \<and>
      oid_DecodeString S inputObjectID = Inr objectID \<and>
      scoped S (c_key c) (c_tok c) VerbObjectGet
        \<lparr>a_containerID = Some containerID, a_objectID = Some objectID\<rparr> t \<and>
      0 \<le> c_bufsize c \<longrightarrow>
      (\<forall>r. Client_Get S N c inputContainerID inputObjectID = Some r \<longrightarrow>
         tokens_presented (snd (snd r)) = [t])) \<and>
   ((\<exists>k. (\<forall>j<k. 0 < fst (nd_Read N j)) \<and> fst (nd_Read N k) \<le> 0) \<longrightarrow>
      (\<exists>r. Client_Get S N c inputContainerID inputObjectID = Some r))"
  (is "?frame \<and> ?put \<and> ?get \<and> ?put_exact \<and> ?get_exact \<and> ?get_returns")
proof (intro conjI)
  show ?frame
    by (rule Client_Put_client)
  show ?put
    by (rule Client_Put_tokens)
  show ?get
  proof (intro allI impI conjI)
    fix r
    assume r: "Client_Get S N c inputContainerID inputObjectID = Some r"
    show "fst (snd r) = c"
      using r by (rule Client_Get_client)
    show "list_all (\<lambda>t.
          case cid_DecodeString S inputContainerID of
            Inl e \<Rightarrow> False
          | Inr containerID \<Rightarrow>
              (case oid_DecodeString S inputObjectID of
                 Inl e \<Rightarrow> False
               | Inr objectID \<Rightarrow>
                   scoped S (c_key c) (c_tok c) VerbObjectGet
                     \<lparr>a_containerID = Some containerID, a_objectID = Some objectID\<rparr> t))
        (tokens_presented (snd (snd r)))"
      using r by (rule Client_Get_tokens)
  qed
  show ?put_exact
  proof (intro allI impI, elim conjE)
    fix containerID t
    assume "cid_DecodeString S inputContainerID = Inr containerID"
      and "scoped S (c_key c) (c_tok c) VerbObjectPut
             \<lparr>a_containerID = Some containerID, a_objectID = None\<rparr> t"
    then show "tokens_presented
                 (snd (snd (Client_Put S N c inputContainerID headers payload))) =
               (if 0 \<le> c_bufsize c \<and> nd_ObjectPutInit N = None then [t] else [])"
      by (rule Client_Put_tokens_exact)
  qed
  show ?get_exact
  proof (intro allI impI, elim conjE)
    fix containerID objectID t r
    assume "cid_DecodeString S inputContainerID = Inr containerID"
      and "oid_DecodeString S inputObjectID = Inr objectID"
      and "scoped S (c_key c) (c_tok c) VerbObjectGet
             \<lparr>a_containerID = Some containerID, a_objectID = Some objectID\<rparr> t"
      and "0 \<le> c_bufsize c"
      and "Client_Get S N c inputContainerID inputObjectID = Some r"
    then show "tokens_presented (snd (snd r)) = [t]"
      by (rule Client_Get_tokens_exact)
  qed
  show ?get_returns
  proof
    assume "\<exists>k. (\<forall>j<k. 0 < fst (nd_Read N j)) \<and> fst (nd_Read N k) \<le> 0"
    then obtain k where "\<forall>j<k. 0 < fst (nd_Read N j)" and "fst (nd_Read N k) \<le> 0"
      by blast
    then show "\<exists>r. Client_Get S N c inputContainerID inputObjectID = Some r"
      by (rule Client_Get_returns)
  qed
qed

theorem session_token_fresh_and_scoped_witness:
  "cid_DecodeString sdk_example ''c'' = Inr [1] \<and>
   oid_DecodeString sdk_example ''o'' = Inr [2] \<and>
   0 \<le> c_bufsize client_example \<and> nd_ObjectPutInit node_example = None \<and>
   fst (nd_Read node_example 2) \<le> 0 \<and>
   fst (snd (Client_Put sdk_example node_example client_example ''c'' [(''a'', ''b'')] [1, 2, 3])) =
     client_example \<and>
   tokens_presented
     (snd (snd (Client_Put sdk_example node_example client_example ''c'' [(''a'', ''b'')] [1, 2, 3]))) =
     [token_example\<lparr>t_verb := Some VerbObjectPut,
        t_address := Some \<lparr>a_containerID = Some [1], a_objectID = None\<rparr>,
        t_issuer := Some [4], t_signature := Some [3]\<rparr>] \<and>
   scoped sdk_example (c_key client_example) (c_tok client_example) VerbObjectPut
     \<lparr>a_containerID = Some [1], a_objectID = None\<rparr>
     (token_example\<lparr>t_verb := Some VerbObjectPut,
        t_address := Some \<lparr>a_containerID = Some [1], a_objectID = None\<rparr>,
        t_issuer := Some [4], t_signature := Some [3]\<rparr>) \<and>
   (\<exists>r. Client_Get sdk_example node_example client_example ''c'' ''o'' = Some r \<and>
      fst (snd r) = client_example \<and>
      tokens_presented (snd (snd r)) =
        [token_example\<lparr>t_verb := Some VerbObjectGet,
           t_address := Some \<lparr>a_containerID = Some [1], a_objectID = Some [2]\<rparr>,
           t_issuer := Some [4], t_signature := Some [3]\<rparr>]) \<and>
   scoped sdk_example (c_key client_example) (c_tok client_example) VerbObjectGet
     \<lparr>a_containerID = Some [1], a_objectID = Some [2]\<rparr>
     (token_example\<lparr>t_verb := Some VerbObjectGet,
        t_address := Some \<lparr>a_containerID = Some [1], a_objectID = Some [2]\<rparr>,
        t_issuer := Some [4], t_signature := Some [3]\<rparr>)"
proof -
  have facts: "cid_DecodeString sdk_example ''c'' = Inr [1]"
    "oid_DecodeString sdk_example ''o'' = Inr [2]"
    "0 \<le> c_bufsize client_example" "nd_ObjectPutInit node_example = None"
    "fst (nd_Read node_example 2) \<le> 0"
    "scoped sdk_example (c_key client_example) (c_tok client_example) VerbObjectPut
     \<lparr>a_containerID = Some [1], a_objectID = None\<rparr>
     (token_example\<lparr>t_verb := Some VerbObjectPut,
        t_address := Some \<lparr>a_containerID = Some [1], a_objectID = None\<rparr>,
        t_issuer := Some [4], t_signature := Some [3]\<rparr>)"
    "scoped sdk_example (c_key client_example) (c_tok client_example) VerbObjectGet
     \<lparr>a_containerID = Some [1], a_objectID = Some [2]\<rparr>
     (token_example\<lparr>t_verb := Some VerbObjectGet,
        t_address := Some \<lparr>a_containerID = Some [1], a_objectID = Some [2]\<rparr>,
        t_issuer := Some [4], t_signature := Some [3]\<rparr>)"
    by (simp_all add: sdk_example_def client_example_def node_example_def scoped_def)
  note inst = session_token_fresh_and_scoped
      [of sdk_example node_example client_example "''c''" "[(''a'', ''b'')]" "[1, 2, 3]" "''o''"]
  note frame = inst [THEN conjunct1]
  note get = inst [THEN conjunct2, THEN conjunct2, THEN conjunct1, rule_format]
  note put_exact = inst [THEN conjunct2, THEN conjunct2, THEN conjunct2, THEN conjunct1,
      rule_format]
  note get_exact = inst [THEN conjunct2, THEN conjunct2, THEN conjunct2, THEN conjunct2,
      THEN conjunct1, rule_format]
  note get_returns = inst [THEN conjunct2, THEN conjunct2, THEN conjunct2, THEN conjunct2,
      THEN conjunct2, rule_format]
  have put_tokens: "tokens_presented
     (snd (snd (Client_Put sdk_example node_example client_example ''c'' [(''a'', ''b'')] [1, 2, 3]))) =
     [token_example\<lparr>t_verb := Some VerbObjectPut,
        t_address := Some \<lparr>a_containerID = Some [1], a_objectID = None\<rparr>,
        t_issuer := Some [4], t_signature := Some [3]\<rparr>]"
    using put_exact [OF conjI [OF facts(1) facts(6)]] facts(3,4) by simp
  have reads: "\<exists>k. (\<forall>j<k. 0 < fst (nd_Read node_example j)) \<and> fst (nd_Read node_example k) \<le> 0"
    by (rule exI [of _ 2]) (simp add: node_example_def)
  from get_returns [OF reads] obtain r
    where r: "Client_Get sdk_example node_example client_example ''c'' ''o'' = Some r"
    by blast
  have "fst (snd r) = client_example"
    using get [OF r] by (rule conjunct1)
  moreover have "tokens_presented (snd (snd r)) =
        [token_example\<lparr>t_verb := Some VerbObjectGet,
           t_address := Some \<lparr>a_containerID = Some [1], a_objectID = Some [2]\<rparr>,
           t_issuer := Some [4], t_signature := Some [3]\<rparr>]"
    using facts(1,2,7,3) r by (intro get_exact conjI)
  ultimately have get_tokens:
    "\<exists>r. Client_Get sdk_example node_example client_example ''c'' ''o'' = Some r \<and>
      fst (snd r) = client_example \<and>
      tokens_presented (snd (snd r)) =
        [token_example\<lparr>t_verb := Some VerbObjectGet,
           t_address := Some \<lparr>a_containerID = Some [1], a_objectID = Some [2]\<rparr>,
           t_issuer := Some [4], t_signature := Some [3]\<rparr>]"
    using r by blast
  show ?thesis
    using facts frame put_tokens get_tokens by (intro conjI)
qed


section \<open>Putting a prepared object twice\<close>

text \<open>
  What \<open>PreparedObject.Put\<close> leaves of the prepared object: everything but the
  attributes of its header, which are those of the call. A second call sets its own
  attributes before it computes anything, so it answers and sends what it would on the
  object as prepared; the header sent is the prepared header finalized with the call's
  attributes, and the checksums in it are the prepared ones.
\<close>

lemma Onsite_Return:
  assumes "fst (Onsite S N c inputContainerID payload) = Return p"
  shows "p_payload p = payload \<and> p_key p = c_key c \<and> p_bufsize p = c_bufsize c \<and>
         o_payloadChecksum (p_hdr p) = Some (SHA256 (sha256_Sum256 S payload))"
  using assms
  by (auto simp: Onsite_def Let_def split: prod.splits option.splits if_splits sum.splits)

lemma PreparedObject_Put_receiver:
  "fst (snd (PreparedObject_Put S N p attrs)) = p\<lparr>p_hdr := (p_hdr p)\<lparr>o_attributes := attrs\<rparr>\<rparr>"
  by (simp add: PreparedObject_Put_def Let_def
      split: sum.split prod.split outcome.split option.split)

lemma PreparedObject_Put_headers:
  "list_all (finalized S p attrs) (headers_written (snd (snd (PreparedObject_Put S N p attrs))))"
proof (cases "object_CalculateID S ((p_hdr p)\<lparr>o_attributes := attrs\<rparr>)")
  case (Inl e)
  then show ?thesis by (simp add: PreparedObject_Put_def)
next
  case (Inr i)
  show ?thesis
  proof (cases "object_CalculateIDSignature S (p_key p)
                  ((p_hdr p)\<lparr>o_attributes := attrs, o_ID := Some i\<rparr>)")
    case (Inl e)
    with Inr show ?thesis by (simp add: PreparedObject_Put_def)
  next
    case sg: (Inr sg)
    have "snd (snd (PreparedObject_Put S N p attrs)) =
          snd (put N (p_bufsize p) None
            ((p_hdr p)\<lparr>o_attributes := attrs, o_ID := Some i, o_signature := Some sg\<rparr>)
            (p_payload p))"
      using Inr sg
      by (simp add: PreparedObject_Put_def Let_def
          split: prod.split outcome.split option.split)
    then show ?thesis
      using Inr sg by (simp add: put_headers finalized_def)
  qed
qed

lemma PreparedObject_Put_ObjectID:
  assumes "fst (PreparedObject_Put S N p attrs) = Return resp" and "put_Success resp"
  shows "\<exists>i. object_CalculateID S ((p_hdr p)\<lparr>o_attributes := attrs\<rparr>) = Inr i \<and>
             put_ObjectID resp = oid_String S i"
  using assms
  by (auto simp: PreparedObject_Put_def Let_def
      split: sum.splits prod.splits outcome.splits option.splits)

lemma finalized_checksums:
  "finalized S p attrs obj \<Longrightarrow>
   o_attributes obj = attrs \<and>
   o_payloadChecksum obj = o_payloadChecksum (p_hdr p) \<and>
   o_payloadHomomorphicHash obj = o_payloadHomomorphicHash (p_hdr p)"
  by (auto simp: finalized_def split: sum.splits)

lemma PreparedObject_Put_again:
  "fst (PreparedObject_Put S N2 (fst (snd (PreparedObject_Put S N1 p attrs1))) attrs2) =
     fst (PreparedObject_Put S N2 p attrs2) \<and>
   snd (snd (PreparedObject_Put S N2 (fst (snd (PreparedObject_Put S N1 p attrs1))) attrs2)) =
     snd (snd (PreparedObject_Put S N2 p attrs2))"
  by (simp add: PreparedObject_Put_receiver)
     (simp add: PreparedObject_Put_def Let_def
        split: sum.split prod.split outcome.split option.split)

lemma PreparedObject_Put_twice:
  assumes "fst (Onsite S N0 c inputContainerID payload) = Return p"
  shows "p_payload (fst (snd (PreparedObject_Put S N1 p attrs1))) = payload \<and>
         (p_hdr (fst (snd (PreparedObject_Put S N1 p attrs1))))\<lparr>o_attributes := []\<rparr> =
           (p_hdr p)\<lparr>o_attributes := []\<rparr> \<and>
         list_all (\<lambda>obj. finalized S p attrs1 obj \<and>
                     o_payloadChecksum obj = Some (SHA256 (sha256_Sum256 S payload)) \<and>
                     o_payloadHomomorphicHash obj = o_payloadHomomorphicHash (p_hdr p))
           (headers_written (snd (snd (PreparedObject_Put S N1 p attrs1)))) \<and>
         list_all (\<lambda>obj. finalized S p attrs2 obj \<and>
                     o_payloadChecksum obj = Some (SHA256 (sha256_Sum256 S payload)) \<and>
                     o_payloadHomomorphicHash obj = o_payloadHomomorphicHash (p_hdr p))
           (headers_written (snd (snd (PreparedObject_Put S N2
              (fst (snd (PreparedObject_Put S N1 p attrs1))) attrs2))))"
proof -
  note prep = Onsite_Return [OF assms]
  have sent: "list_all (\<lambda>obj. finalized S p attrs obj \<and>
                     o_payloadChecksum obj = Some (SHA256 (sha256_Sum256 S payload)) \<and>
                     o_payloadHomomorphicHash obj = o_payloadHomomorphicHash (p_hdr p))
           (headers_written (snd (snd (PreparedObject_Put S N p attrs))))" for N attrs
  proof -
    have "o_payloadChecksum obj = Some (SHA256 (sha256_Sum256 S payload)) \<and>
          o_payloadHomomorphicHash obj = o_payloadHomomorphicHash (p_hdr p)"
      if "finalized S p attrs obj" for obj
      using finalized_checksums [OF that] prep by simp
    then show ?thesis
      using PreparedObject_Put_headers [of S p attrs N] by (simp add: list_all_iff)
  qed
  show ?thesis
    using sent [of attrs1 N1] sent [of attrs2 N2] prep
    by (simp add: PreparedObject_Put_again) (simp add: PreparedObject_Put_receiver)
qed



end
